theory Spec2Isabelle
  imports Complex_Main
begin

section \<open>Python values, exceptions and the clock\<close>

text \<open>
  The concordance cache of KonText (\<^verbatim>\<open>lib/conclib/calc/__init__.py\<close> and
  \<^verbatim>\<open>lib/plugins/abstract/conc_cache.py\<close>) is embedded as pure functions over an
  explicit world state. Exceptions are values of the type \<open>exn\<close>; a function that may
  raise returns a sum with the exception on the left. Only instances of Python's
  \<^verbatim>\<open>Exception\<close> are modelled (the system-exiting exceptions are not).
\<close>

datatype exn =
    ConcCalculationStatusException string
  | CalcStatusException string
  | FileAccessError string
  | AssertionError string
  | NotImplementedError string
  | IOError string
  | TypeError string
  | UnboundLocalError string
  | IndexError string
  | AttributeError string
  | OtherException string

text \<open>\<^verbatim>\<open>str(e)\<close>: the message of an exception.\<close>

fun str_exn :: "exn \<Rightarrow> string" where
  "str_exn (ConcCalculationStatusException m) = m"
| "str_exn (CalcStatusException m) = m"
| "str_exn (FileAccessError m) = m"
| "str_exn (AssertionError m) = m"
| "str_exn (NotImplementedError m) = m"
| "str_exn (IOError m) = m"
| "str_exn (TypeError m) = m"
| "str_exn (UnboundLocalError m) = m"
| "str_exn (IndexError m) = m"
| "str_exn (AttributeError m) = m"
| "str_exn (OtherException m) = m"

text \<open>
  \<^verbatim>\<open>IOError\<close> is Python 3's alias of \<^verbatim>\<open>OSError\<close>; the handler
  \<^verbatim>\<open>except IOError\<close> selects by this predicate.
\<close>

fun is_IOError :: "exn \<Rightarrow> bool" where
  "is_IOError (IOError m) = True"
| "is_IOError e = False"

text \<open>
  The values a Python expression built from \<^verbatim>\<open>and\<close>/\<^verbatim>\<open>or\<close> can return here, and
  their truthiness.
\<close>

datatype pyval = PyBool bool | PyInt int | PyNone

fun truthy :: "pyval \<Rightarrow> bool" where
  "truthy (PyBool b) = b"
| "truthy (PyInt n) = (n \<noteq> 0)"
| "truthy PyNone = False"

text \<open>
  \<^verbatim>\<open>time.time()\<close> is read from the world's clock, kept in milliseconds;
  \<^verbatim>\<open>int(time.time())\<close> truncates it to seconds (towards zero).
\<close>

definition time_int :: "int \<Rightarrow> int" where
  "time_int ms = (if 0 \<le> ms then ms div 1000 else - ((- ms) div 1000))"

section \<open>CalcStatus\<close>

record CalcStatus =
  task_id :: "string option"
  pid :: int
  created :: int
  last_upd :: int
  concsize :: "int option"
  fullsize :: "int option"
  relconcsize :: "int option"
  arf :: "rat option"
  error :: "string option"
  finished :: bool
  rebound :: "string list"

text \<open>
  The field \<open>rebound\<close> is not a Python attribute: it lists the method names that
  \<^verbatim>\<open>setattr\<close> has rebound on the instance (see \<open>update\<close> below).

  An \<^verbatim>\<open>error\<close> argument is \<^verbatim>\<open>None\<close>, a string or an exception; an exception is
  stored as its \<^verbatim>\<open>str\<close>.
\<close>

datatype error_arg = ENone | EStr string | EExn exn

fun norm_error :: "error_arg \<Rightarrow> string option" where
  "norm_error ENone = None"
| "norm_error (EStr m) = Some m"
| "norm_error (EExn e) = Some (str_exn e)"

text \<open>
  \<^verbatim>\<open>CalcStatus.__init__\<close>: \<open>ospid\<close> is \<^verbatim>\<open>os.getpid()\<close> and \<open>now\<close> the clock.
  A falsy \<^verbatim>\<open>pid\<close>, \<^verbatim>\<open>created\<close> or \<^verbatim>\<open>last_upd\<close> (\<^verbatim>\<open>None\<close> or 0) takes the default.
\<close>

fun or_default :: "int option \<Rightarrow> int \<Rightarrow> int" where
  "or_default None d = d"
| "or_default (Some v) d = (if v = 0 then d else v)"

definition CalcStatus_init ::
  "int \<Rightarrow> int \<Rightarrow> string option \<Rightarrow> int option \<Rightarrow> int option \<Rightarrow> int option \<Rightarrow> int option \<Rightarrow>
   int option \<Rightarrow> int option \<Rightarrow> rat option \<Rightarrow> error_arg \<Rightarrow> bool \<Rightarrow> CalcStatus" where
  "CalcStatus_init ospid now a_task_id a_pid a_created a_last_upd a_concsize a_fullsize
       a_relconcsize a_arf a_error a_finished =
     (let c = or_default a_created (time_int now) in
      \<lparr> task_id = a_task_id,
        pid = or_default a_pid ospid,
        created = c,
        last_upd = or_default a_last_upd c,
        concsize = a_concsize,
        fullsize = a_fullsize,
        relconcsize = a_relconcsize,
        arf = a_arf,
        error = norm_error a_error,
        finished = a_finished,
        rebound = [] \<rparr>)"

text \<open>\<^verbatim>\<open>CalcStatus()\<close> with every argument at its default.\<close>

definition CalcStatus_default :: "int \<Rightarrow> int \<Rightarrow> CalcStatus" where
  "CalcStatus_default ospid now =
     CalcStatus_init ospid now None None None None (Some 0) (Some 0) (Some 0) (Some 0) ENone False"

text \<open>
  \<^verbatim>\<open>test_error(time_limit)\<close>: the limit is in seconds, \<open>now\<close> in milliseconds.
  The text of the stall message (which prints the waiting time) is abbreviated.
\<close>

definition test_error :: "CalcStatus \<Rightarrow> int \<Rightarrow> int \<Rightarrow> exn option" where
  "test_error s time_limit now =
     (case error s of
        Some m \<Rightarrow> Some (CalcStatusException m)
      | None \<Rightarrow>
          if \<not> finished s \<and> now - last_upd s * 1000 > time_limit * 1000
          then Some (CalcStatusException ''Wait limit for initial data exceeded'')
          else None)"

text \<open>
  \<^verbatim>\<open>has_some_result\<close> returns the value of
  \<^verbatim>\<open>minsize == -1 and self.finished or self.concsize and self.concsize >= minsize\<close>,
  which is \<^verbatim>\<open>None\<close> or \<^verbatim>\<open>0\<close> when \<^verbatim>\<open>concsize\<close> is.
\<close>

definition has_some_result :: "CalcStatus \<Rightarrow> int \<Rightarrow> pyval" where
  "has_some_result s minsize =
     (if minsize = -1 \<and> finished s then PyBool True
      else case concsize s of
             None \<Rightarrow> PyNone
           | Some c \<Rightarrow> if c = 0 then PyInt 0 else PyBool (c \<ge> minsize))"

text \<open>
  Keyword arguments of \<^verbatim>\<open>update(**kw)\<close>, in the order of the dictionary. The ten data
  attributes carry values of their types; \<open>Kw_other\<close> is a keyword other than these
  ten. The values of keywords are numbers, strings, booleans, \<^verbatim>\<open>None\<close> and exceptions,
  never a class or a dictionary; the value of a \<open>Kw_other\<close> keyword is not kept.
\<close>

datatype kwarg =
    Kw_task_id "string option"
  | Kw_pid int
  | Kw_created int
  | Kw_last_upd int
  | Kw_concsize "int option"
  | Kw_fullsize "int option"
  | Kw_relconcsize "int option"
  | Kw_arf "rat option"
  | Kw_error error_arg
  | Kw_finished bool
  | Kw_other string

fun kw_name :: "kwarg \<Rightarrow> string" where
  "kw_name (Kw_task_id v) = ''task_id''"
| "kw_name (Kw_pid v) = ''pid''"
| "kw_name (Kw_created v) = ''created''"
| "kw_name (Kw_last_upd v) = ''last_upd''"
| "kw_name (Kw_concsize v) = ''concsize''"
| "kw_name (Kw_fullsize v) = ''fullsize''"
| "kw_name (Kw_relconcsize v) = ''relconcsize''"
| "kw_name (Kw_arf v) = ''arf''"
| "kw_name (Kw_error v) = ''error''"
| "kw_name (Kw_finished v) = ''finished''"
| "kw_name (Kw_other n) = n"

definition field_names :: "string list" where
  "field_names = [''task_id'', ''pid'', ''created'', ''last_upd'', ''concsize'', ''fullsize'',
                  ''relconcsize'', ''arf'', ''error'', ''finished'']"

text \<open>The methods the class \<^verbatim>\<open>CalcStatus\<close> defines.\<close>

definition method_names :: "string list" where
  "method_names = [''__init__'', ''to_dict'', ''test_error'', ''has_some_result'', ''update'']"

text \<open>
  The names an instance has from the class statement and from \<^verbatim>\<open>object\<close> (Python 3.6
  to 3.10). The interpreter refuses to assign to three of them: \<^verbatim>\<open>__class__\<close> wants a
  class and \<^verbatim>\<open>__dict__\<close> a dictionary (\<^verbatim>\<open>TypeError\<close>), \<^verbatim>\<open>__weakref__\<close> is not
  writable (\<^verbatim>\<open>AttributeError\<close>). The texts of these messages are abbreviated.
\<close>

definition object_names :: "string list" where
  "object_names = [''__class__'', ''__delattr__'', ''__dict__'', ''__dir__'', ''__doc__'',
                   ''__eq__'', ''__format__'', ''__ge__'', ''__getattribute__'', ''__gt__'',
                   ''__hash__'', ''__init_subclass__'', ''__le__'', ''__lt__'', ''__module__'',
                   ''__ne__'', ''__new__'', ''__reduce__'', ''__reduce_ex__'', ''__repr__'',
                   ''__setattr__'', ''__sizeof__'', ''__str__'', ''__subclasshook__'',
                   ''__weakref__'']"

definition refused_names :: "string list" where
  "refused_names = [''__class__'', ''__dict__'', ''__weakref__'']"

definition refusal :: "string \<Rightarrow> exn" where
  "refusal k =
     (if k = ''__weakref__''
      then AttributeError ''attribute __weakref__ of CalcStatus objects is not writable''
      else TypeError (k @ '' must be set to a class or a dictionary''))"

text \<open>
  \<^verbatim>\<open>hasattr(self, k)\<close>: the instance's data attributes, the methods of the class and
  the names it has from \<^verbatim>\<open>object\<close>.
\<close>

definition hasattr :: "CalcStatus \<Rightarrow> string \<Rightarrow> bool" where
  "hasattr s k = (k \<in> set field_names \<or> k \<in> set method_names \<or> k \<in> set object_names)"

fun setattr :: "CalcStatus \<Rightarrow> kwarg \<Rightarrow> CalcStatus" where
  "setattr s (Kw_task_id v) = s\<lparr>task_id := v\<rparr>"
| "setattr s (Kw_pid v) = s\<lparr>pid := v\<rparr>"
| "setattr s (Kw_created v) = s\<lparr>created := v\<rparr>"
| "setattr s (Kw_last_upd v) = s\<lparr>last_upd := v\<rparr>"
| "setattr s (Kw_concsize v) = s\<lparr>concsize := v\<rparr>"
| "setattr s (Kw_fullsize v) = s\<lparr>fullsize := v\<rparr>"
| "setattr s (Kw_relconcsize v) = s\<lparr>relconcsize := v\<rparr>"
| "setattr s (Kw_arf v) = s\<lparr>arf := v\<rparr>"
| "setattr s (Kw_error v) = s\<lparr>error := norm_error v\<rparr>"
| "setattr s (Kw_finished v) = s\<lparr>finished := v\<rparr>"
| "setattr s (Kw_other n) = s\<lparr>rebound := n # rebound s\<rparr>"

text \<open>
  The loop of \<^verbatim>\<open>update\<close>. The object is changed in place, so the attributes set before
  an unknown keyword stay set when the \<^verbatim>\<open>AssertionError\<close> is raised: the loop returns
  the object together with the exception. \<^verbatim>\<open>setattr\<close> itself raises on a name the
  interpreter refuses to assign.
\<close>

fun update_loop :: "CalcStatus \<Rightarrow> kwarg list \<Rightarrow> exn option \<times> CalcStatus" where
  "update_loop s [] = (None, s)"
| "update_loop s (k # kw) =
     (if hasattr s (kw_name k) then
        (if kw_name k \<in> set refused_names then (Some (refusal (kw_name k)), s)
         else update_loop (setattr s k) kw)
      else (Some (AssertionError (''Unknown CalcStatus  attribute: '' @ kw_name k)), s))"

definition update :: "int \<Rightarrow> CalcStatus \<Rightarrow> kwarg list \<Rightarrow> exn option \<times> CalcStatus" where
  "update now s kw =
     (case update_loop s kw of
        (Some e, s') \<Rightarrow> (Some e, s')
      | (None, s') \<Rightarrow> (None, s'\<lparr>last_upd := time_int now\<rparr>))"

section \<open>The world: clock, cache map and storage\<close>

type_synonym query = "string list"

text \<open>A cache map key: the subcorpus hash (\<^verbatim>\<open>None\<close> for the whole corpus) and a query.\<close>

type_synonym key = "string option \<times> query"

text \<open>
  A corpus, with what \<^verbatim>\<open>corplib.corp_mtime\<close> returns for it (in milliseconds, as the
  clock).
\<close>

record corpus =
  corpname :: string
  corp_mtime :: int

text \<open>
  The concordance objects the resolver returns: the empty sentinel, or
  \<^verbatim>\<open>PyConc(mcorp, 'l', cache_path, orig_corp=corp)\<close> loaded from a cache file.
\<close>

datatype conc = EmptyConc corpus | PyConc corpus string corpus

fun is_EmptyConc :: "conc \<Rightarrow> bool" where
  "is_EmptyConc (EmptyConc c) = True"
| "is_EmptyConc (PyConc m p c) = False"

record world =
  now :: int
  ospid :: int
  cache_paths :: "key \<Rightarrow> string option"
  cache_status :: "key \<Rightarrow> CalcStatus option"
  stored_size :: "key \<Rightarrow> int option"
  files :: "string set"

text \<open>
  What the code takes from its surroundings: the configured \<^verbatim>\<open>TASK_TIME_LIMIT\<close>
  (seconds), what other processes do to the world while the caller sleeps (given the
  time of waking up), the outcome of revoking a task (\<^verbatim>\<open>None\<close>: no exception),
  of \<^verbatim>\<open>manatee.Corpus(name)\<close> and of constructing a \<^verbatim>\<open>PyConc\<close> from a cache file,
  and the file name a cache map gives to a new entry.
\<close>

record ctx =
  TASK_TIME_LIMIT :: int
  interference :: "int \<Rightarrow> world \<Rightarrow> world"
  revoke :: "string \<Rightarrow> exn option"
  open_corpus :: "string \<Rightarrow> exn + corpus"
  load_conc :: "corpus \<Rightarrow> string \<Rightarrow> exn option"
  path_for :: "key \<Rightarrow> string"

text \<open>
  \<^verbatim>\<open>time.sleep\<close>: the clock advances by the given milliseconds, and the other
  processes have acted meanwhile (they cannot change the clock).
\<close>

definition sleep :: "ctx \<Rightarrow> int \<Rightarrow> world \<Rightarrow> world" where
  "sleep c ms w = (interference c (now w + ms) (w\<lparr>now := now w + ms\<rparr>))\<lparr>now := now w + ms\<rparr>"

subsection \<open>The cache map\<close>

text \<open>
  Modelled from the spec: the methods of \<^verbatim>\<open>AbstractConcCache\<close> are abstract in
  \<^verbatim>\<open>conc_cache.py\<close> and no implementation is part of the sources. The spec (4.2) and
  the docstrings of the abstract methods give: a map from (subchash, query) to a cache
  file path and a \<^verbatim>\<open>CalcStatus\<close>; \<^verbatim>\<open>del_entry\<close> removes exactly one entry,
  \<^verbatim>\<open>del_full_entry\<close> every entry with the same base query (the first operation),
  \<^verbatim>\<open>update_calc_status\<close> applies \<^verbatim>\<open>CalcStatus.update\<close> to the stored status, creating it
  if absent; \<^verbatim>\<open>add_to_map\<close> registers the entry and its size and returns the path and the
  previous status; \<^verbatim>\<open>refresh_map\<close> may do nothing.
\<close>

definition get_calc_status :: "world \<Rightarrow> string option \<Rightarrow> query \<Rightarrow> CalcStatus option" where
  "get_calc_status w subchash q = cache_status w (subchash, q)"

definition cache_file_path :: "world \<Rightarrow> string option \<Rightarrow> query \<Rightarrow> string option" where
  "cache_file_path w subchash q = cache_paths w (subchash, q)"

definition get_stored_size :: "world \<Rightarrow> string option \<Rightarrow> query \<Rightarrow> int option" where
  "get_stored_size w subchash q = stored_size w (subchash, q)"

definition refresh_map :: "world \<Rightarrow> world" where
  "refresh_map w = w"

definition del_entry :: "world \<Rightarrow> string option \<Rightarrow> query \<Rightarrow> world" where
  "del_entry w subchash q =
     w\<lparr> cache_paths := (cache_paths w)((subchash, q) := None),
        cache_status := (cache_status w)((subchash, q) := None),
        stored_size := (stored_size w)((subchash, q) := None) \<rparr>"

definition same_base :: "string option \<Rightarrow> query \<Rightarrow> key \<Rightarrow> bool" where
  "same_base subchash q k = (fst k = subchash \<and> take 1 (snd k) = take 1 q)"

definition del_full_entry :: "world \<Rightarrow> string option \<Rightarrow> query \<Rightarrow> world" where
  "del_full_entry w subchash q =
     w\<lparr> cache_paths := (\<lambda>k. if same_base subchash q k then None else cache_paths w k),
        cache_status := (\<lambda>k. if same_base subchash q k then None else cache_status w k),
        stored_size := (\<lambda>k. if same_base subchash q k then None else stored_size w k) \<rparr>"

definition update_calc_status ::
  "world \<Rightarrow> string option \<Rightarrow> query \<Rightarrow> kwarg list \<Rightarrow> (exn + unit) \<times> world" where
  "update_calc_status w subchash q kw =
     (let s = (case cache_status w (subchash, q) of
                 None \<Rightarrow> CalcStatus_default (ospid w) (now w)
               | Some s \<Rightarrow> s)
      in case update (now w) s kw of
           (Some e, s') \<Rightarrow> (Inl e, w)
         | (None, s') \<Rightarrow> (Inr (), w\<lparr>cache_status := (cache_status w)((subchash, q) \<mapsto> s')\<rparr>))"

definition add_to_map ::
  "ctx \<Rightarrow> world \<Rightarrow> string option \<Rightarrow> query \<Rightarrow> int \<Rightarrow> CalcStatus option
     \<Rightarrow> (string \<times> CalcStatus option) \<times> world" where
  "add_to_map c w subchash q size' calc_status =
     (let k = (subchash, q);
          p = (case cache_paths w k of None \<Rightarrow> path_for c k | Some p \<Rightarrow> p)
      in ((p, cache_status w k),
          w\<lparr> cache_paths := (cache_paths w)(k \<mapsto> p),
             stored_size := (stored_size w)(k \<mapsto> size'),
             cache_status := (case calc_status of
                                None \<Rightarrow> cache_status w
                              | Some s \<Rightarrow> (cache_status w)(k \<mapsto> s)) \<rparr>))"

section \<open>conclib.calc: the prefix resolver and the wait protocol\<close>

text \<open>\<^verbatim>\<open>_contains_shuffle_seq\<close>: the loop carries \<^verbatim>\<open>prev_shuffle\<close>.\<close>

fun shuffle_scan :: "bool \<Rightarrow> query \<Rightarrow> bool" where
  "shuffle_scan prev_shuffle [] = False"
| "shuffle_scan prev_shuffle (item # rest) =
     (if item = ''f''
      then (if prev_shuffle then True else shuffle_scan True rest)
      else shuffle_scan False rest)"

definition contains_shuffle_seq :: "query \<Rightarrow> bool" where
  "contains_shuffle_seq q_ops = shuffle_scan False q_ops"

text \<open>
  Storage is a set of regular files. \<^verbatim>\<open>os.remove\<close> raises \<^verbatim>\<open>TypeError\<close> on
  \<^verbatim>\<open>None\<close> and an \<^verbatim>\<open>OSError\<close> when the file is missing; \<^verbatim>\<open>os.rename\<close> raises an
  \<^verbatim>\<open>OSError\<close> when the source is missing; \<^verbatim>\<open>os.path.isfile(None)\<close> raises
  \<^verbatim>\<open>TypeError\<close>.
\<close>

definition os_remove :: "world \<Rightarrow> string option \<Rightarrow> exn + world" where
  "os_remove w path =
     (case path of
        None \<Rightarrow> Inl (TypeError ''remove: path should be string, bytes or os.PathLike, not NoneType'')
      | Some p \<Rightarrow>
          if p \<in> files w then Inr (w\<lparr>files := files w - {p}\<rparr>)
          else Inl (IOError ''No such file or directory''))"

definition os_rename :: "world \<Rightarrow> string \<Rightarrow> string \<Rightarrow> exn + world" where
  "os_rename w src dst =
     (if src \<in> files w then Inr (w\<lparr>files := insert dst (files w - {src})\<rparr>)
      else Inl (IOError ''No such file or directory''))"

definition os_path_isfile :: "world \<Rightarrow> string option \<Rightarrow> exn + bool" where
  "os_path_isfile w path =
     (case path of
        None \<Rightarrow> Inl (TypeError ''stat: path should be string, bytes, os.PathLike or integer, not NoneType'')
      | Some p \<Rightarrow> Inr (p \<in> files w))"

text \<open>
  \<^verbatim>\<open>del_silent\<close>: both exceptions \<^verbatim>\<open>os.remove\<close> raises are in the handler's
  classes, so the failure is only logged.
\<close>

definition del_silent :: "world \<Rightarrow> string option \<Rightarrow> world" where
  "del_silent w path =
     (case os_remove w path of
        Inr w' \<Rightarrow> w'
      | Inl ex \<Rightarrow> w)"

text \<open>
  \<^verbatim>\<open>cancel_async_task\<close>. The status object is always truthy; a task id is truthy
  when it is neither \<^verbatim>\<open>None\<close> nor empty. Obtaining the backend client and revoking
  the task are one external call; only an \<^verbatim>\<open>IOError\<close> from it is swallowed.
\<close>

definition cancel_async_task ::
  "ctx \<Rightarrow> world \<Rightarrow> string option \<Rightarrow> query \<Rightarrow> (exn + unit) \<times> world" where
  "cancel_async_task c w subchash q =
     (let cachefile = cache_file_path w subchash q;
          status = get_calc_status w subchash q;
          revoked = (case status of
                       None \<Rightarrow> None
                     | Some st \<Rightarrow>
                         (case task_id st of
                            None \<Rightarrow> None
                          | Some t \<Rightarrow>
                              if t = [] then None
                              else (case revoke c t of
                                      None \<Rightarrow> None
                                    | Some ex \<Rightarrow> if is_IOError ex then None else Some ex)))
      in case revoked of
           Some ex \<Rightarrow> (Inl ex, w)
         | None \<Rightarrow> (Inr (), del_silent (del_entry w subchash q) cachefile))"

text \<open>
  \<^verbatim>\<open>_check_result\<close>: the pair is (\<^verbatim>\<open>not status.has_some_result(minsize)\<close>,
  \<^verbatim>\<open>status.finished\<close>). The exception of \<^verbatim>\<open>test_error\<close> is a \<^verbatim>\<open>CalcStatusException\<close>.
\<close>

definition check_result ::
  "ctx \<Rightarrow> world \<Rightarrow> query \<Rightarrow> string option \<Rightarrow> int \<Rightarrow> (exn + bool \<times> bool) \<times> world" where
  "check_result c w q subchash minsize =
     (case get_calc_status w subchash q of
        None \<Rightarrow>
          (Inl (ConcCalculationStatusException ''Missing status information''),
           del_full_entry w subchash q)
      | Some status \<Rightarrow>
          (case test_error status (TASK_TIME_LIMIT c) (now w) of
             Some err \<Rightarrow> (Inl err, del_full_entry w subchash q)
           | None \<Rightarrow> (Inr (\<not> truthy (has_some_result status minsize), finished status), w)))"

text \<open>
  The polling loop of \<^verbatim>\<open>wait_for_conc\<close>. The limit and the clock are in milliseconds;
  \<open>n\<close> counts the polls made in the loop so far, so that \<^verbatim>\<open>i\<close> is \<open>n + 1\<close> and the
  sleep lasts \<open>100 * (n + 1)\<close> ms. \<^verbatim>\<open>t1\<close> is the clock after the sleep, which the check
  does not advance. The loop's condition reads \<^verbatim>\<open>finished\<close> only; the first
  component of the check's result is assigned to \<^verbatim>\<open>has_result\<close> and never read.
  The loop returns the last \<^verbatim>\<open>finished\<close>.
\<close>

function wait_loop ::
  "ctx \<Rightarrow> query \<Rightarrow> string option \<Rightarrow> int \<Rightarrow> int \<Rightarrow> int \<Rightarrow> nat \<Rightarrow> bool \<Rightarrow> world
     \<Rightarrow> (exn + bool) \<times> world" where
  "wait_loop c q subchash minsize time_limit t0 n fin w =
     (if \<not> fin \<and> now w - t0 < time_limit then
        (let w1 = sleep c (100 * (int n + 1)) w in
         case check_result c w1 q subchash minsize of
           (Inl ex, w2) \<Rightarrow> (Inl ex, w2)
         | (Inr (has_result, fin'), w2) \<Rightarrow>
             wait_loop c q subchash minsize time_limit t0 (Suc n) fin' w2)
      else (Inr fin, w))"
  by pat_completeness auto
termination
proof (relation "measure (\<lambda>(c, q, subchash, minsize, time_limit, t0, n, fin, w).
                            nat (t0 + time_limit - now w))", goal_cases)
  case 1
  show ?case by simp
next
  case (2 c q subchash minsize time_limit t0 n fin w w1 x y z hr fin')
  then show ?case
    by (auto simp: check_result_def sleep_def split: option.splits)
qed

declare wait_loop.simps [simp del]

definition wait_for_conc ::
  "ctx \<Rightarrow> world \<Rightarrow> query \<Rightarrow> string option \<Rightarrow> int \<Rightarrow> (exn + bool) \<times> world" where
  "wait_for_conc c w q subchash minsize =
     (let time_limit = (if minsize \<ge> 0 then 5000 else 30000);
          t0 = now w
      in case check_result c w q subchash minsize of
           (Inl ex, w1) \<Rightarrow> (Inl ex, w1)
         | (Inr (has_result, fin0), w1) \<Rightarrow>
             (case wait_loop c q subchash minsize time_limit t0 0 fin0 w1 of
                (Inl ex, w2) \<Rightarrow> (Inl ex, w2)
              | (Inr fin, w2) \<Rightarrow>
                  (case os_path_isfile w2 (cache_file_path w2 subchash q) of
                     Inl ex \<Rightarrow> (Inl ex, w2)
                   | Inr True \<Rightarrow> (Inr True, w2)
                   | Inr False \<Rightarrow>
                       (Inr False, if fin then del_entry w2 subchash q else w2))))"

text \<open>
  The first part of \<^verbatim>\<open>find_cached_conc_base\<close>: the entry of the full query is evicted
  when it has an error or was created before the corpus was last modified.
\<close>

definition check_full_entry :: "world \<Rightarrow> corpus \<Rightarrow> string option \<Rightarrow> query \<Rightarrow> world" where
  "check_full_entry w corp subchash q =
     (case get_calc_status w subchash q of
        None \<Rightarrow> w
      | Some calc_status \<Rightarrow>
          (case error calc_status of
             None \<Rightarrow>
               if created calc_status * 1000 - corp_mtime corp < 0
               then del_full_entry w subchash q
               else w
           | Some err \<Rightarrow> del_full_entry w subchash q))"

text \<open>\<^verbatim>\<open>range(srch_from, 0, -1)\<close> and the candidate prefix lengths of the search.\<close>

definition range_down :: "nat \<Rightarrow> nat list" where
  "range_down srch_from = rev [1..<Suc srch_from]"

definition search_candidates :: "query \<Rightarrow> nat list" where
  "search_candidates q = range_down (if contains_shuffle_seq q then 1 else length q)"

text \<open>
  The main corpus of an aligned query: the last operation that starts with \<^verbatim>\<open>x-\<close>
  names it (the list is scanned in the order given, the caller reverses the prefix).
\<close>

fun find_main_corp :: "ctx \<Rightarrow> corpus \<Rightarrow> query \<Rightarrow> exn + corpus" where
  "find_main_corp c corp [] = Inr corp"
| "find_main_corp c corp (qq # rest) =
     (if take 2 qq = ''x-'' then open_corpus c (drop 2 qq)
      else find_main_corp c corp rest)"

text \<open>
  One iteration of the search loop for a prefix \<^verbatim>\<open>q[:i]\<close> with a registered cache
  path: the body of the \<^verbatim>\<open>try\<close>. \<open>Skip\<close> is \<^verbatim>\<open>continue\<close>, \<open>Found\<close> carries the
  value of \<^verbatim>\<open>conc\<close> with which the loop breaks.
\<close>

datatype attempt = Skip | Found conc

definition try_prefix ::
  "ctx \<Rightarrow> world \<Rightarrow> corpus \<Rightarrow> string option \<Rightarrow> query \<Rightarrow> int \<Rightarrow> string
     \<Rightarrow> (exn + attempt) \<times> world" where
  "try_prefix c w corp subchash qi minsize cache_path =
     (case wait_for_conc c w qi subchash minsize of
        (Inl ex, w1) \<Rightarrow> (Inl ex, w1)
      | (Inr ready, w1) \<Rightarrow>
          if \<not> ready then
            (if minsize \<noteq> 0 then
               (case cancel_async_task c w1 subchash qi of
                  (Inl ex, w2) \<Rightarrow> (Inl ex, w2)
                | (Inr u, w2) \<Rightarrow> (Inr Skip, w2))
             else (Inr Skip, w1))
          else
            (case check_result c w1 qi subchash minsize of
               (Inl ex, w2) \<Rightarrow> (Inl ex, w2)
             | (Inr (has_result, fin), w2) \<Rightarrow>
                 if fin then
                   (case find_main_corp c corp (rev qi) of
                      Inl ex \<Rightarrow> (Inl ex, w2)
                    | Inr mcorp \<Rightarrow>
                        (case load_conc c mcorp cache_path of
                           Some ex \<Rightarrow> (Inl ex, w2)
                         | None \<Rightarrow> (Inr (Found (PyConc mcorp cache_path corp)), w2)))
                 else (Inr (Found (EmptyConc corp)), w2)))"

text \<open>\<^verbatim>\<open>except (ConcCalculationStatusException, manatee.FileAccessError)\<close>.\<close>

fun is_caught :: "exn \<Rightarrow> bool" where
  "is_caught (ConcCalculationStatusException m) = True"
| "is_caught (FileAccessError m) = True"
| "is_caught e = False"

fun search_loop ::
  "ctx \<Rightarrow> corpus \<Rightarrow> string option \<Rightarrow> query \<Rightarrow> int \<Rightarrow> nat list \<Rightarrow> world
     \<Rightarrow> (exn + nat \<times> conc) \<times> world" where
  "search_loop c corp subchash q minsize [] w = (Inr (0, EmptyConc corp), w)"
| "search_loop c corp subchash q minsize (i # rest) w =
     (case cache_file_path w subchash (take i q) of
        None \<Rightarrow> search_loop c corp subchash q minsize rest w
      | Some cache_path \<Rightarrow>
          if cache_path = [] then search_loop c corp subchash q minsize rest w
          else
            (case try_prefix c w corp subchash (take i q) minsize cache_path of
               (Inl ex, w1) \<Rightarrow>
                 if is_caught ex then
                   (case cancel_async_task c w1 subchash (take i q) of
                      (Inl ex2, w2) \<Rightarrow> (Inl ex2, w2)
                    | (Inr u, w2) \<Rightarrow> search_loop c corp subchash q minsize rest w2)
                 else (Inl ex, w1)
             | (Inr Skip, w1) \<Rightarrow> search_loop c corp subchash q minsize rest w1
             | (Inr (Found conc), w1) \<Rightarrow> (Inr (i, conc), w1)))"

text \<open>
  \<^verbatim>\<open>find_cached_conc_base\<close>. The debug message after the loop reads the loop variable
  \<^verbatim>\<open>i\<close>, which is unbound when the loop had no candidate (the empty query).
\<close>

definition find_cached_conc_base ::
  "ctx \<Rightarrow> world \<Rightarrow> corpus \<Rightarrow> string option \<Rightarrow> query \<Rightarrow> int
     \<Rightarrow> (exn + nat \<times> conc) \<times> world" where
  "find_cached_conc_base c w corp subchash q minsize =
     (let w1 = check_full_entry (refresh_map w) corp subchash q;
          candidates = search_candidates q
      in case search_loop c corp subchash q minsize candidates w1 of
           (Inl ex, w2) \<Rightarrow> (Inl ex, w2)
         | (Inr ans, w2) \<Rightarrow>
             if candidates = []
             then (Inl (UnboundLocalError ''local variable i referenced before assignment''), w2)
             else (Inr ans, w2))"

section \<open>The background workers\<close>

subsection \<open>ConcCalculation\<close>

text \<open>
  The corpus engine and the corpus manager are external. Their calls are given by their
  outcomes: opening the corpus, obtaining the cache map, \<^verbatim>\<open>compute_conc\<close>, the saves
  (numbered from 0 in the order they are made), the answers of \<^verbatim>\<open>conc.finished()\<close> and
  of \<^verbatim>\<open>get_cached_conc_sizes\<close> (numbered by the iteration of the loop), the rounded
  ARF, \<^verbatim>\<open>is_subcorpus\<close> and \<^verbatim>\<open>conc.size()\<close>.
\<close>

record conc_sizes =
  sz_finished :: bool
  sz_concsize :: int
  sz_fullsize :: int
  sz_relconcsize :: int

record calc_engine =
  e_get_corpus :: "exn + corpus"
  e_get_mapping :: "exn option"
  e_compute_conc :: "exn option"
  e_save :: "nat \<Rightarrow> exn option"
  e_finished :: "nat \<Rightarrow> exn + bool"
  e_sizes :: "nat \<Rightarrow> exn + conc_sizes"
  e_is_subcorpus :: bool
  e_arf :: "exn + rat"
  e_size :: "exn + int"

record initial_args =
  cachefile :: string
  already_running :: bool

text \<open>
  \<^verbatim>\<open>conc.save(tmp_cachefile, ...)\<close> followed by \<^verbatim>\<open>os.rename\<close> over the cache file;
  \<open>k\<close> is the number of the save.
\<close>

definition save_and_rename ::
  "calc_engine \<Rightarrow> world \<Rightarrow> string \<Rightarrow> nat \<Rightarrow> (exn + unit) \<times> world" where
  "save_and_rename e w cachefile' k =
     (let tmp_cachefile = cachefile' @ ''.tmp'' in
      case e_save e k of
        Some ex \<Rightarrow> (Inl ex, w)
      | None \<Rightarrow>
          (let w1 = w\<lparr>files := insert tmp_cachefile (files w)\<rparr> in
           case os_rename w1 tmp_cachefile cachefile' of
             Inl ex \<Rightarrow> (Inl ex, w1)
           | Inr w2 \<Rightarrow> (Inr (), w2)))"

definition sizes_kwargs :: "conc_sizes \<Rightarrow> rat option \<Rightarrow> string option \<Rightarrow> kwarg list" where
  "sizes_kwargs sizes arf' tid =
     [Kw_finished (sz_finished sizes), Kw_concsize (Some (sz_concsize sizes)),
      Kw_fullsize (Some (sz_fullsize sizes)), Kw_relconcsize (Some (sz_relconcsize sizes)),
      Kw_arf arf', Kw_task_id tid]"

text \<open>The body of the \<^verbatim>\<open>while not conc.finished()\<close> loop, in its iteration \<open>k\<close>.\<close>

definition calc_iteration ::
  "calc_engine \<Rightarrow> ctx \<Rightarrow> string \<Rightarrow> string option \<Rightarrow> query \<Rightarrow> string option \<Rightarrow> nat \<Rightarrow> world
     \<Rightarrow> (exn + unit) \<times> world" where
  "calc_iteration e c cachefile' subchash q tid k w =
     (case save_and_rename e w cachefile' (Suc k) of
        (Inl ex, w1) \<Rightarrow> (Inl ex, w1)
      | (Inr u, w1) \<Rightarrow>
          (let w2 = sleep c (100 * (int k + 1)) w1 in
           case e_sizes e k of
             Inl ex \<Rightarrow> (Inl ex, w2)
           | Inr sizes \<Rightarrow> update_calc_status w2 subchash q (sizes_kwargs sizes None tid)))"

text \<open>
  The loop ends when the engine reports the concordance finished, which it may never
  do: the loop is a partial function, \<open>None\<close> when it does not return. It returns the
  number of iterations made.
\<close>

partial_function (option) calc_loop ::
  "calc_engine \<Rightarrow> ctx \<Rightarrow> string \<Rightarrow> string option \<Rightarrow> query \<Rightarrow> string option \<Rightarrow> nat \<Rightarrow> world
     \<Rightarrow> ((exn + nat) \<times> world) option" where
  "calc_loop e c cachefile' subchash q tid k w =
     (case e_finished e k of
        Inl ex \<Rightarrow> Some (Inl ex, w)
      | Inr fin \<Rightarrow>
          if fin then Some (Inr k, w)
          else (case calc_iteration e c cachefile' subchash q tid k w of
                  (Inl ex, w1) \<Rightarrow> Some (Inl ex, w1)
                | (Inr u, w1) \<Rightarrow> calc_loop e c cachefile' subchash q tid (Suc k) w1))"

text \<open>What follows the loop: the whole concordance is saved and the final sizes stored.\<close>

definition calc_finish ::
  "calc_engine \<Rightarrow> ctx \<Rightarrow> string \<Rightarrow> string option \<Rightarrow> query \<Rightarrow> string option \<Rightarrow> nat \<Rightarrow> world
     \<Rightarrow> (exn + unit) \<times> world" where
  "calc_finish e c cachefile' subchash q tid k w =
     (case save_and_rename e w cachefile' (Suc k) of
        (Inl ex, w1) \<Rightarrow> (Inl ex, w1)
      | (Inr u, w1) \<Rightarrow>
          (case e_sizes e k of
             Inl ex \<Rightarrow> (Inl ex, w1)
           | Inr sizes \<Rightarrow>
               (case (if \<not> e_is_subcorpus e then map_sum id Some (e_arf e) else Inr None) of
                  Inl ex \<Rightarrow> (Inl ex, w1)
                | Inr arf' \<Rightarrow>
                    (case update_calc_status w1 subchash q (sizes_kwargs sizes arf' tid) of
                       (Inl ex, w2) \<Rightarrow> (Inl ex, w2)
                     | (Inr u2, w2) \<Rightarrow>
                         (case e_size e of
                            Inl ex \<Rightarrow> (Inl ex, w2)
                          | Inr n \<Rightarrow> (Inr (), snd (add_to_map c w2 subchash q n None)))))))"

text \<open>The statements of the \<^verbatim>\<open>try\<close> block after the cache map has been obtained.\<close>

definition calc_body ::
  "calc_engine \<Rightarrow> ctx \<Rightarrow> world \<Rightarrow> initial_args \<Rightarrow> string option \<Rightarrow> query \<Rightarrow> string option
     \<Rightarrow> ((exn + unit) \<times> world) option" where
  "calc_body e c w args subchash q tid =
     (if already_running args then Some (Inr (), w)
      else case e_compute_conc e of
             Some ex \<Rightarrow> Some (Inl ex, w)
           | None \<Rightarrow>
               (let w1 = sleep c 100 w in
                case e_save e 0 of
                  Some ex \<Rightarrow> Some (Inl ex, w1)
                | None \<Rightarrow>
                    (let w2 = w1\<lparr>files := insert (cachefile args) (files w1)\<rparr> in
                     case calc_loop e c (cachefile args) subchash q tid 0 w2 of
                       None \<Rightarrow> None
                     | Some (Inl ex, w3) \<Rightarrow> Some (Inl ex, w3)
                     | Some (Inr k, w3) \<Rightarrow>
                         Some (calc_finish e c (cachefile args) subchash q tid k w3))))"

text \<open>
  \<^verbatim>\<open>ConcCalculation.__call__\<close>. The handler stores the error only when
  \<^verbatim>\<open>cache_map is not None\<close>, that is when the exception came after the cache map was
  obtained. \<open>Inr ()\<close> is the normal return.
\<close>

definition ConcCalculation_call ::
  "calc_engine \<Rightarrow> ctx \<Rightarrow> world \<Rightarrow> initial_args \<Rightarrow> string option \<Rightarrow> query \<Rightarrow> string option
     \<Rightarrow> ((exn + unit) \<times> world) option" where
  "ConcCalculation_call e c w args subchash q tid =
     (case e_get_corpus e of
        Inl ex \<Rightarrow> Some (Inr (), w)
      | Inr corpus_obj \<Rightarrow>
          (case e_get_mapping e of
             Some ex \<Rightarrow> Some (Inr (), w)
           | None \<Rightarrow>
               (case calc_body e c w args subchash q tid of
                  None \<Rightarrow> None
                | Some (Inr u, w1) \<Rightarrow> Some (Inr (), w1)
                | Some (Inl ex, w1) \<Rightarrow>
                    Some (update_calc_status w1 subchash q
                            [Kw_finished True, Kw_error (EExn ex)]))))"

subsection \<open>ConcSyncCalculation\<close>

text \<open>
  The engine calls of the synchronous worker, by the index of the step they belong to
  (0 for the base query): \<^verbatim>\<open>compute_conc\<close>, \<^verbatim>\<open>conc.sync()\<close>, \<^verbatim>\<open>conc.save\<close>,
  \<^verbatim>\<open>conc.size()\<close> and \<^verbatim>\<open>conc.exec_command\<close>.
\<close>

record sync_engine =
  s_compute :: "exn option"
  s_sync :: "exn option"
  s_save :: "nat \<Rightarrow> exn option"
  s_size :: "nat \<Rightarrow> exn + int"
  s_exec :: "nat \<Rightarrow> exn option"

text \<open>\<^verbatim>\<open>conc.save(path)\<close>; the engine does not accept \<^verbatim>\<open>None\<close> for a path.\<close>

definition conc_save ::
  "sync_engine \<Rightarrow> world \<Rightarrow> nat \<Rightarrow> string option \<Rightarrow> (exn + unit) \<times> world" where
  "conc_save se w k path =
     (case path of
        None \<Rightarrow> (Inl (TypeError ''argument 2 of type char const *''), w)
      | Some p \<Rightarrow>
          (case s_save se k of
             Some ex \<Rightarrow> (Inl ex, w)
           | None \<Rightarrow> (Inr (), w\<lparr>files := insert p (files w)\<rparr>)))"

text \<open>\<^verbatim>\<open>_mark_calc_states_err\<close>: the loop over \<^verbatim>\<open>range(from_idx, len(query))\<close>.\<close>

fun mark_loop ::
  "world \<Rightarrow> string option \<Rightarrow> query \<Rightarrow> nat list \<Rightarrow> exn \<Rightarrow> (exn + unit) \<times> world" where
  "mark_loop w subchash q [] err = (Inr (), w)"
| "mark_loop w subchash q (i # rest) err =
     (case update_calc_status w subchash (take (i + 1) q) [Kw_error (EExn err), Kw_finished True] of
        (Inl ex, w1) \<Rightarrow> (Inl ex, w1)
      | (Inr u, w1) \<Rightarrow> mark_loop w1 subchash q rest err)"

definition mark_calc_states_err ::
  "world \<Rightarrow> string option \<Rightarrow> query \<Rightarrow> nat \<Rightarrow> exn \<Rightarrow> (exn + unit) \<times> world" where
  "mark_calc_states_err w subchash q from_idx err =
     mark_loop w subchash q [from_idx..<length q] err"

text \<open>
  The first \<^verbatim>\<open>try\<close> block of \<^verbatim>\<open>__call__\<close>: it returns \<^verbatim>\<open>calc_from\<close>, the index of
  the first step still to execute.
\<close>

definition sync_base ::
  "sync_engine \<Rightarrow> ctx \<Rightarrow> world \<Rightarrow> corpus \<Rightarrow> string option \<Rightarrow> query \<Rightarrow> (exn + nat) \<times> world" where
  "sync_base se c w corp subchash q =
     (case find_cached_conc_base c w corp subchash q 0 of
        (Inl ex, w1) \<Rightarrow> (Inl ex, w1)
      | (Inr (calc_from, conc), w1) \<Rightarrow>
          if is_EmptyConc conc then
            (case s_compute se of
               Some ex \<Rightarrow> (Inl ex, w1)
             | None \<Rightarrow>
                 (case s_sync se of
                    Some ex \<Rightarrow> (Inl ex, w1)
                  | None \<Rightarrow>
                      (case conc_save se w1 0 (cache_file_path w1 subchash (take 1 q)) of
                         (Inl ex, w2) \<Rightarrow> (Inl ex, w2)
                       | (Inr u, w2) \<Rightarrow>
                           (case s_size se 0 of
                              Inl ex \<Rightarrow> (Inl ex, w2)
                            | Inr n \<Rightarrow>
                                (case update_calc_status w2 subchash (take 1 q)
                                        [Kw_finished True, Kw_concsize (Some n)] of
                                   (Inl ex, w3) \<Rightarrow> (Inl ex, w3)
                                 | (Inr u2, w3) \<Rightarrow> (Inr (calc_from + 1), w3))))))
          else (Inr calc_from, w1))"

text \<open>
  The \<^verbatim>\<open>try\<close> block of one step \<^verbatim>\<open>act\<close> of the loop (\<open>act\<close> is below the length of
  the query). \<^verbatim>\<open>query[act][0]\<close> raises an \<^verbatim>\<open>IndexError\<close> on an empty operation; the
  command is executed before it is tested against \<^verbatim>\<open>'gae'\<close>.
\<close>

definition sync_step ::
  "sync_engine \<Rightarrow> world \<Rightarrow> string option \<Rightarrow> query \<Rightarrow> nat \<Rightarrow> (exn + unit) \<times> world" where
  "sync_step se w subchash q act =
     (case q ! act of
        [] \<Rightarrow> (Inl (IndexError ''string index out of range''), w)
      | command # args \<Rightarrow>
          (case s_exec se act of
             Some ex \<Rightarrow> (Inl ex, w)
           | None \<Rightarrow>
               if command \<in> set ''gae''
               then (Inl (NotImplementedError
                           (''Cannot run command '' @ [command] @ '' in background'')), w)
               else
                 (case conc_save se w act (cache_file_path w subchash (take (act + 1) q)) of
                    (Inl ex, w1) \<Rightarrow> (Inl ex, w1)
                  | (Inr u, w1) \<Rightarrow>
                      (case s_size se act of
                         Inl ex \<Rightarrow> (Inl ex, w1)
                       | Inr n \<Rightarrow>
                           update_calc_status w1 subchash (take (act + 1) q)
                             [Kw_finished True, Kw_concsize (Some n)]))))"

text \<open>
  How a call of the worker ended: every step done, the first \<^verbatim>\<open>try\<close> block failed, or
  the step with the given index failed. The source returns \<^verbatim>\<open>None\<close> in each case; the
  model also returns the indices of the steps whose \<^verbatim>\<open>try\<close> block was entered.
\<close>

datatype sync_outcome = Completed | FailedBase exn | FailedAt nat exn

fun sync_steps ::
  "sync_engine \<Rightarrow> string option \<Rightarrow> query \<Rightarrow> nat list \<Rightarrow> world \<Rightarrow> nat list
     \<Rightarrow> (exn + sync_outcome) \<times> world \<times> nat list" where
  "sync_steps se subchash q [] w entered = (Inr Completed, w, entered)"
| "sync_steps se subchash q (act # rest) w entered =
     (case sync_step se w subchash q act of
        (Inl ex, w1) \<Rightarrow>
          (case mark_calc_states_err w1 subchash q act ex of
             (Inl ex2, w2) \<Rightarrow> (Inl ex2, w2, entered @ [act])
           | (Inr u, w2) \<Rightarrow> (Inr (FailedAt act ex), w2, entered @ [act]))
      | (Inr u, w1) \<Rightarrow> sync_steps se subchash q rest w1 (entered @ [act]))"

definition ConcSyncCalculation_call ::
  "sync_engine \<Rightarrow> ctx \<Rightarrow> world \<Rightarrow> corpus \<Rightarrow> string option \<Rightarrow> query
     \<Rightarrow> (exn + sync_outcome) \<times> world \<times> nat list" where
  "ConcSyncCalculation_call se c w corp subchash q =
     (case sync_base se c w corp subchash q of
        (Inl ex, w1) \<Rightarrow>
          (case mark_calc_states_err w1 subchash q 0 ex of
             (Inl ex2, w2) \<Rightarrow> (Inl ex2, w2, [])
           | (Inr u, w2) \<Rightarrow> (Inr (FailedBase ex), w2, []))
      | (Inr calc_from, w1) \<Rightarrow> sync_steps se subchash q [calc_from..<length q] w1 [])"

section \<open>The words of the specification, and sample inputs\<close>




text \<open>
  Sample surroundings: nothing interferes during a sleep, revoking a task has the given
  outcome, every corpus opens and every cache file loads.
\<close>

definition ex_ctx :: "exn option \<Rightarrow> ctx" where
  "ex_ctx r = \<lparr> TASK_TIME_LIMIT = 300,
                interference = (\<lambda>t w. w),
                revoke = (\<lambda>t. r),
                open_corpus = (\<lambda>n. Inr \<lparr>corpname = n, corp_mtime = 900000000\<rparr>),
                load_conc = (\<lambda>m p. None),
                path_for = (\<lambda>k. ''/var/cache/conc/new.conc'') \<rparr>"

definition ex_corp :: corpus where
  "ex_corp = \<lparr>corpname = ''syn2015'', corp_mtime = 900000000\<rparr>"

text \<open>
  A status created at the clock 1000000 s by the task \<^verbatim>\<open>task-1\<close>, with 10 lines
  computed, finished or not.
\<close>

definition ex_status :: "bool \<Rightarrow> CalcStatus" where
  "ex_status fin =
     CalcStatus_init 4242 1000000000 (Some ''task-1'') None None None (Some 10) (Some 10) (Some 0)
       None ENone fin"

text \<open>
  A world at the clock 1000000 s whose cache map has one entry, for the whole corpus
  and the query \<open>q\<close>, with the given status and an existing cache file.
\<close>

definition ex_world :: "query \<Rightarrow> CalcStatus \<Rightarrow> world" where
  "ex_world q st =
     \<lparr> now = 1000000000, ospid = 4242,
       cache_paths = [(None, q) \<mapsto> ''/var/cache/conc/a1b2.conc''],
       cache_status = [(None, q) \<mapsto> st],
       stored_size = Map.empty,
       files = {''/var/cache/conc/a1b2.conc''} \<rparr>"

text \<open>
  The status of the prefix \<^verbatim>\<open>q[:i+1]\<close> is marked as failed with the exception \<open>ex\<close>:
  it is finished and its error is the text of \<open>ex\<close>.
\<close>

definition marked_failed :: "world \<Rightarrow> string option \<Rightarrow> query \<Rightarrow> nat \<Rightarrow> exn \<Rightarrow> bool" where
  "marked_failed w subchash q i ex =
     (case get_calc_status w subchash (take (i + 1) q) of
        None \<Rightarrow> False
      | Some st \<Rightarrow> finished st \<and> error st = Some (str_exn ex))"

text \<open>The status \<^verbatim>\<open>update_calc_status\<close> starts from: the stored one, or a new one.\<close>

definition stored_or_new :: "world \<Rightarrow> key \<Rightarrow> CalcStatus" where
  "stored_or_new w k = (case cache_status w k of None \<Rightarrow> CalcStatus_default (ospid w) (now w) | Some s \<Rightarrow> s)"

text \<open>
  No file of \<open>w\<close> other than the temporary file of the cache file \<open>cf\<close> is missing in
  \<open>w'\<close>.
\<close>

definition keeps_files :: "string \<Rightarrow> world \<Rightarrow> world \<Rightarrow> bool" where
  "keeps_files cf w w' = (\<forall>p\<in>files w. p \<noteq> cf @ ''.tmp'' \<longrightarrow> p \<in> files w')"

text \<open>
  Sample engines. For the asynchronous worker: every call succeeds except as given for
  opening the corpus and for \<^verbatim>\<open>conc.finished()\<close>; the sample \<open>ex_fin_raises\<close> reports
  unfinished once and then raises. For the synchronous worker: every call succeeds
  except \<^verbatim>\<open>exec_command\<close> as given; \<open>ex_fail_at_1\<close> raises at step 1.
\<close>

definition ex_engine :: "(exn + corpus) \<Rightarrow> (nat \<Rightarrow> exn + bool) \<Rightarrow> calc_engine" where
  "ex_engine gc fin =
     \<lparr> e_get_corpus = gc, e_get_mapping = None, e_compute_conc = None,
       e_save = (\<lambda>k. None), e_finished = fin,
       e_sizes = (\<lambda>k. Inr \<lparr>sz_finished = False, sz_concsize = 10 * (int k + 1),
                              sz_fullsize = 10 * (int k + 1), sz_relconcsize = 0\<rparr>),
       e_is_subcorpus = False, e_arf = Inr (5 / 2), e_size = Inr 20 \<rparr>"

definition ex_fin_raises :: "nat \<Rightarrow> exn + bool" where
  "ex_fin_raises k = (if k = 0 then Inr False else Inl (OtherException ''engine failure''))"

definition ex_args :: initial_args where
  "ex_args = \<lparr>cachefile = ''/var/cache/conc/a1b2.conc'', already_running = False\<rparr>"

definition ex_sync_engine :: "(nat \<Rightarrow> exn option) \<Rightarrow> sync_engine" where
  "ex_sync_engine ex = \<lparr> s_compute = None, s_sync = None, s_save = (\<lambda>k. None),
                          s_size = (\<lambda>k. Inr 10), s_exec = ex \<rparr>"

definition ex_fail_at_1 :: "nat \<Rightarrow> exn option" where
  "ex_fail_at_1 k = (if k = 1 then Some (OtherException ''engine failure'') else None)"

definition ex_query3 :: query where
  "ex_query3 = [''q[word=\"x\"]'', ''f'', ''r250'']"

section \<open>Properties of CalcStatus\<close>

text \<open>
  C4, as stated: for every existing record \<open>s\<close>, \<^verbatim>\<open>s.has_some_result(0)\<close> is true
  whatever \<^verbatim>\<open>concsize\<close> is. It fails for a record as \<^verbatim>\<open>CalcStatus()\<close> creates it, whose
  \<^verbatim>\<open>concsize\<close> is 0: the method returns the falsy 0.
\<close>

theorem has_some_result_zero_counterexample:
  "\<not> truthy (has_some_result (CalcStatus_default 4242 1000000) 0)"
  by (simp add: has_some_result_def CalcStatus_default_def CalcStatus_init_def Let_def)

text \<open>
  C4, amended: \<^verbatim>\<open>s.has_some_result(0)\<close> is truthy exactly when \<^verbatim>\<open>concsize\<close> is a
  positive number; a record whose \<^verbatim>\<open>concsize\<close> is 0 or \<^verbatim>\<open>None\<close> is not accepted.
\<close>

theorem has_some_result_zero:
  "truthy (has_some_result s 0) \<longleftrightarrow> (\<exists>n. concsize s = Some n \<and> 0 < n)"
  by (auto simp: has_some_result_def split: option.splits)













section \<open>Properties of the prefix resolver and of cancellation\<close>








lemma del_silent_maps [simp]:
  "cache_status (del_silent w path) = cache_status w"
  "cache_paths (del_silent w path) = cache_paths w"
  by (simp_all add: del_silent_def os_remove_def split: option.splits)




lemma check_result_ok:
  assumes "cache_status w (sh, q) = Some st" and "error st = None"
    and "finished st \<or> now w \<le> (last_upd st + TASK_TIME_LIMIT c) * 1000"
  shows "check_result c w q sh m = (Inr (\<not> truthy (has_some_result st m), finished st), w)"
  using assms by (auto simp: check_result_def get_calc_status_def test_error_def)

lemma wait_loop_finished:
  "wait_loop c q sh m lmt t0 n True w = (Inr True, w)"
  by (simp add: wait_loop.simps)

lemma wait_loop_timeout:
  "lmt \<le> now w - t0 \<Longrightarrow> wait_loop c q sh m lmt t0 n fin w = (Inr fin, w)"
  by (simp add: wait_loop.simps)

lemma wait_loop_step:
  assumes static: "\<forall>t w. interference c t w = w"
    and st: "cache_status w (sh, q) = Some st" "error st = None" "\<not> finished st"
    and d: "d < lmt" "now w + d + (100 * int n + 100) \<le> (last_upd st + TASK_TIME_LIMIT c) * 1000"
  shows "wait_loop c q sh m lmt (now w) n False (w\<lparr>now := now w + d\<rparr>)
       = wait_loop c q sh m lmt (now w) (Suc n) False (w\<lparr>now := now w + (d + (100 * int n + 100))\<rparr>)"
proof -
  let ?w1 = "w\<lparr>now := now w + (d + (100 * int n + 100))\<rparr>"
  have sl: "sleep c ((100 * int n + 100)) (w\<lparr>now := now w + d\<rparr>) = ?w1"
    using static by (simp add: sleep_def add.assoc)
  have chk: "check_result c ?w1 q sh m = (Inr (\<not> truthy (has_some_result st m), False), ?w1)"
    using st d check_result_ok [of ?w1 sh q st c m] by (simp add: add.assoc)
  show ?thesis
    using d(1) by (subst wait_loop.simps) (simp add: sl chk Let_def)
qed

lemma wait_loop_static_unfinished:
  assumes static: "\<forall>t w. interference c t w = w"
    and st: "cache_status w (sh, q) = Some st" "error st = None" "\<not> finished st"
    and nostall: "now w + 5500 \<le> (last_upd st + TASK_TIME_LIMIT c) * 1000"
  shows "wait_loop c q sh m 5000 (now w) 0 False w = (Inr False, w\<lparr>now := now w + 5500\<rparr>)"
proof -
  note step = wait_loop_step [OF static st, where lmt = 5000 and m = m]
  have w0: "w = w\<lparr>now := now w + 0\<rparr>" by simp
  have "wait_loop c q sh m 5000 (now w) 0 False w
        = wait_loop c q sh m 5000 (now w) 0 False (w\<lparr>now := now w + 0\<rparr>)"
    by simp
  also have "\<dots> = wait_loop c q sh m 5000 (now w) 1 False (w\<lparr>now := now w + 100\<rparr>)"
    using step [of 0 0] nostall by simp
  also have "\<dots> = wait_loop c q sh m 5000 (now w) 2 False (w\<lparr>now := now w + 300\<rparr>)"
    using step [of 100 1] nostall by (simp add: numeral_2_eq_2)
  also have "\<dots> = wait_loop c q sh m 5000 (now w) 3 False (w\<lparr>now := now w + 600\<rparr>)"
    using step [of 300 2] nostall by (simp add: eval_nat_numeral)
  also have "\<dots> = wait_loop c q sh m 5000 (now w) 4 False (w\<lparr>now := now w + 1000\<rparr>)"
    using step [of 600 3] nostall by (simp add: eval_nat_numeral)
  also have "\<dots> = wait_loop c q sh m 5000 (now w) 5 False (w\<lparr>now := now w + 1500\<rparr>)"
    using step [of 1000 4] nostall by (simp add: eval_nat_numeral)
  also have "\<dots> = wait_loop c q sh m 5000 (now w) 6 False (w\<lparr>now := now w + 2100\<rparr>)"
    using step [of 1500 5] nostall by (simp add: eval_nat_numeral)
  also have "\<dots> = wait_loop c q sh m 5000 (now w) 7 False (w\<lparr>now := now w + 2800\<rparr>)"
    using step [of 2100 6] nostall by (simp add: eval_nat_numeral)
  also have "\<dots> = wait_loop c q sh m 5000 (now w) 8 False (w\<lparr>now := now w + 3600\<rparr>)"
    using step [of 2800 7] nostall by (simp add: eval_nat_numeral)
  also have "\<dots> = wait_loop c q sh m 5000 (now w) 9 False (w\<lparr>now := now w + 4500\<rparr>)"
    using step [of 3600 8] nostall by (simp add: eval_nat_numeral)
  also have "\<dots> = wait_loop c q sh m 5000 (now w) 10 False (w\<lparr>now := now w + 5500\<rparr>)"
    using step [of 4500 9] nostall by (simp add: eval_nat_numeral)
  also have "\<dots> = (Inr False, w\<lparr>now := now w + 5500\<rparr>)"
    by (rule wait_loop_timeout) simp
  finally show ?thesis .
qed

lemma wait_for_conc_static_unfinished:
  assumes static: "\<forall>t w. interference c t w = w"
    and st: "cache_status w (sh, q) = Some st" "error st = None" "\<not> finished st"
    and nostall: "now w + 5500 \<le> (last_upd st + TASK_TIME_LIMIT c) * 1000"
    and m: "0 \<le> m"
    and p: "cache_paths w (sh, q) = Some p" "p \<in> files w"
  shows "wait_for_conc c w q sh m = (Inr True, w\<lparr>now := now w + 5500\<rparr>)"
proof -
  have chk: "check_result c w q sh m = (Inr (\<not> truthy (has_some_result st m), False), w)"
    using st nostall check_result_ok [of w sh q st c m] by simp
  show ?thesis
    using m p
    by (simp add: wait_for_conc_def Let_def chk wait_loop_static_unfinished [OF static st nostall]
        os_path_isfile_def cache_file_path_def)
qed

lemma wait_for_conc_finished:
  assumes st: "cache_status w (sh, q) = Some st" "error st = None" "finished st"
    and p: "cache_paths w (sh, q) = Some p" "p \<in> files w"
  shows "wait_for_conc c w q sh m = (Inr True, w)"
proof -
  have chk: "check_result c w q sh m = (Inr (\<not> truthy (has_some_result st m), True), w)"
    using st check_result_ok [of w sh q st c m] by simp
  show ?thesis
    using p
    by (simp add: wait_for_conc_def Let_def chk wait_loop_finished
        os_path_isfile_def cache_file_path_def)
qed

lemma ex_status_simps [simp]:
  "error (ex_status fin) = None" "finished (ex_status fin) = fin"
  "created (ex_status fin) = 1000000" "last_upd (ex_status fin) = 1000000"
  "task_id (ex_status fin) = Some ''task-1''" "concsize (ex_status fin) = Some 10"
  by (simp_all add: ex_status_def CalcStatus_init_def Let_def time_int_def)

lemma search_loop_no_paths:
  "\<forall>i\<in>set cands. cache_file_path w sh (take i q) = None \<Longrightarrow>
     search_loop c corp sh q m cands w = (Inr (0, EmptyConc corp), w)"
  by (induction cands) auto

lemma range_down_pos: "i \<in> set (range_down n) \<Longrightarrow> 0 < i"
  by (auto simp: range_down_def)

lemma search_candidates_pos: "i \<in> set (search_candidates q) \<Longrightarrow> 0 < i"
  by (auto simp: search_candidates_def dest: range_down_pos)

lemma search_candidates_empty: "search_candidates q = [] \<longleftrightarrow> q = []"
  by (cases q) (auto simp: search_candidates_def range_down_def contains_shuffle_seq_def)

lemma del_full_entry_prefix:
  "0 < i \<Longrightarrow> cache_file_path (del_full_entry w sh q) sh (take i q) = None"
  by (cases i) (auto simp: cache_file_path_def del_full_entry_def same_base_def take_Suc split: list.splits)

text \<open>
  C5: when the status of the full query has an error, \<^verbatim>\<open>find_cached_conc_base\<close> evicts
  the entry with \<^verbatim>\<open>del_full_entry\<close> before its search: the search runs in the world
  after the eviction, where \<^verbatim>\<open>get_calc_status(subchash, q)\<close> is \<^verbatim>\<open>None\<close>. No prefix of
  the query has an entry left there, so the resolver returns the empty concordance with
  index 0 (for the empty query the debug message raises) and leaves the world as the
  eviction made it.
\<close>

theorem errored_full_entry_evicted:
  assumes "get_calc_status w subchash q = Some st" and "error st = Some msg"
  shows "check_full_entry (refresh_map w) corp subchash q = del_full_entry w subchash q
     \<and> get_calc_status (del_full_entry w subchash q) subchash q = None
     \<and> find_cached_conc_base c w corp subchash q minsize
         = (if q = [] then Inl (UnboundLocalError ''local variable i referenced before assignment'')
            else Inr (0, EmptyConc corp),
            del_full_entry w subchash q)"
proof -
  have a: "check_full_entry (refresh_map w) corp subchash q = del_full_entry w subchash q"
    using assms by (simp add: check_full_entry_def refresh_map_def)
  have b: "get_calc_status (del_full_entry w subchash q) subchash q = None"
    by (simp add: get_calc_status_def del_full_entry_def same_base_def)
  have "\<forall>i\<in>set (search_candidates q).
          cache_file_path (del_full_entry w subchash q) subchash (take i q) = None"
    using search_candidates_pos del_full_entry_prefix by blast
  then have c: "search_loop c corp subchash q minsize (search_candidates q)
                  (del_full_entry w subchash q) = (Inr (0, EmptyConc corp), del_full_entry w subchash q)"
    by (rule search_loop_no_paths)
  show ?thesis
    by (simp add: a b find_cached_conc_base_def Let_def c search_candidates_empty)
qed

theorem errored_full_entry_evicted_witness:
  "get_calc_status (ex_world [''q[word=\"x\"]'', ''r250''] ((ex_status True)\<lparr>error := Some ''engine failure''\<rparr>))
       None [''q[word=\"x\"]'', ''r250'']
     = Some ((ex_status True)\<lparr>error := Some ''engine failure''\<rparr>)
   \<and> get_calc_status
        (snd (find_cached_conc_base (ex_ctx None)
               (ex_world [''q[word=\"x\"]'', ''r250''] ((ex_status True)\<lparr>error := Some ''engine failure''\<rparr>))
               ex_corp None [''q[word=\"x\"]'', ''r250''] 0))
        None [''q[word=\"x\"]'', ''r250''] = None
   \<and> fst (find_cached_conc_base (ex_ctx None)
               (ex_world [''q[word=\"x\"]'', ''r250''] ((ex_status True)\<lparr>error := Some ''engine failure''\<rparr>))
               ex_corp None [''q[word=\"x\"]'', ''r250''] 0)
       = Inr (0, EmptyConc ex_corp)"
  using errored_full_entry_evicted [of
          "ex_world [''q[word=\"x\"]'', ''r250''] ((ex_status True)\<lparr>error := Some ''engine failure''\<rparr>)"
          None "[''q[word=\"x\"]'', ''r250'']" "(ex_status True)\<lparr>error := Some ''engine failure''\<rparr>"
          "''engine failure''" ex_corp "ex_ctx None" 0]
  by (simp add: get_calc_status_def ex_world_def)

lemma candidates_full:
  "q \<noteq> [] \<Longrightarrow> \<not> contains_shuffle_seq q \<Longrightarrow>
     search_candidates q = length q # rev [1..<length q]"
  by (cases q) (simp_all add: search_candidates_def range_down_def)

text \<open>
  C1, as stated: for every query with a finished, not errored, not stale entry at the
  full prefix the resolver returns the length of the query and the concordance loaded
  from the cache file. For a query with two consecutive shuffles the search looks at
  the prefix of length 1 only: with no entry there it returns index 0 and the empty
  concordance, although the full query has a finished entry whose file exists.
\<close>

theorem finished_full_entry_counterexample:
  "get_calc_status (ex_world [''q[word=\"x\"]'', ''f'', ''f''] (ex_status True)) None
       [''q[word=\"x\"]'', ''f'', ''f''] = Some (ex_status True)
   \<and> finished (ex_status True) \<and> error (ex_status True) = None
   \<and> corp_mtime ex_corp \<le> created (ex_status True) * 1000
   \<and> ''/var/cache/conc/a1b2.conc'' \<in> files (ex_world [''q[word=\"x\"]'', ''f'', ''f''] (ex_status True))
   \<and> find_cached_conc_base (ex_ctx None) (ex_world [''q[word=\"x\"]'', ''f'', ''f''] (ex_status True))
        ex_corp None [''q[word=\"x\"]'', ''f'', ''f''] 0
       = (Inr (0, EmptyConc ex_corp), ex_world [''q[word=\"x\"]'', ''f'', ''f''] (ex_status True))"
  by (simp add: find_cached_conc_base_def Let_def check_full_entry_def refresh_map_def
      get_calc_status_def cache_file_path_def ex_world_def ex_corp_def
      search_candidates_def range_down_def contains_shuffle_seq_def)

text \<open>
  C1, amended: for every non-empty query \<open>q\<close> without two consecutive shuffle
  operations, with a cache entry at the full prefix whose status is finished, not
  errored and not stale, whose cache file exists in storage and loads,
  \<^verbatim>\<open>find_cached_conc_base\<close> returns \<^verbatim>\<open>(len(q), c)\<close> where \<open>c\<close> is the concordance loaded
  from that cache file (over the main corpus the query names, if it names one), and
  changes nothing.
\<close>

theorem finished_full_entry_found:
  assumes q: "q \<noteq> []" "\<not> contains_shuffle_seq q"
    and st: "get_calc_status w subchash q = Some st" "finished st" "error st = None"
            "corp_mtime corp \<le> created st * 1000"
    and p: "cache_file_path w subchash q = Some p" "p \<noteq> []" "p \<in> files w"
    and ld: "find_main_corp c corp (rev q) = Inr mcorp" "load_conc c mcorp p = None"
  shows "find_cached_conc_base c w corp subchash q minsize
           = (Inr (length q, PyConc mcorp p corp), w)"
proof -
  have cfe: "check_full_entry (refresh_map w) corp subchash q = w"
    using st by (simp add: check_full_entry_def refresh_map_def)
  have st': "cache_status w (subchash, q) = Some st" and p': "cache_paths w (subchash, q) = Some p"
    using st p by (simp_all add: get_calc_status_def cache_file_path_def)
  have wt: "wait_for_conc c w q subchash minsize = (Inr True, w)"
    using wait_for_conc_finished [OF st' st(3) st(2) p' p(3)] .
  have chk: "check_result c w q subchash minsize
               = (Inr (\<not> truthy (has_some_result st minsize), True), w)"
    using check_result_ok [OF st' st(3), of c minsize] st(2) by simp
  have tp: "try_prefix c w corp subchash q minsize p = (Inr (Found (PyConc mcorp p corp)), w)"
    by (simp add: try_prefix_def wt chk ld)
  show ?thesis
    using q p by (simp add: find_cached_conc_base_def Let_def cfe candidates_full tp)
qed

theorem finished_full_entry_witness:
  "find_cached_conc_base (ex_ctx None) (ex_world [''q[word=\"x\"]'', ''f''] (ex_status True)) ex_corp None
       [''q[word=\"x\"]'', ''f''] 0
     = (Inr (2, PyConc ex_corp ''/var/cache/conc/a1b2.conc'' ex_corp),
        ex_world [''q[word=\"x\"]'', ''f''] (ex_status True))"
  using finished_full_entry_found [of "[''q[word=\"x\"]'', ''f'']"
      "ex_world [''q[word=\"x\"]'', ''f''] (ex_status True)" None "ex_status True" ex_corp
      "''/var/cache/conc/a1b2.conc''" "ex_ctx None" ex_corp 0]
  by (simp add: contains_shuffle_seq_def get_calc_status_def cache_file_path_def ex_world_def
      ex_corp_def ex_ctx_def)

text \<open>
  C10: \<^verbatim>\<open>find_cached_conc_base\<close> can return a positive start index together with the
  empty sentinel. When the entry of the full query (no two consecutive shuffles) is not
  finished, has no error and does not stall, its cache file exists and nothing changes
  during the wait, \<^verbatim>\<open>wait_for_conc\<close> polls until its budget of 5 s is used up (for
  \<open>minsize \<ge> 0\<close>), finds the file and reports ready; the status is still unfinished, no
  concordance is loaded, and the loop breaks with \<^verbatim>\<open>(len(q), EmptyConc)\<close>.
\<close>

theorem unfinished_entry_gives_empty_conc:
  assumes static: "\<forall>t w. interference c t w = w"
    and q: "q \<noteq> []" "\<not> contains_shuffle_seq q"
    and st: "get_calc_status w subchash q = Some st" "\<not> finished st" "error st = None"
            "corp_mtime corp \<le> created st * 1000"
    and nostall: "now w + 5500 \<le> (last_upd st + TASK_TIME_LIMIT c) * 1000"
    and m: "0 \<le> minsize"
    and p: "cache_file_path w subchash q = Some p" "p \<noteq> []" "p \<in> files w"
  shows "find_cached_conc_base c w corp subchash q minsize
           = (Inr (length q, EmptyConc corp), w\<lparr>now := now w + 5500\<rparr>)
         \<and> 0 < length q"
proof -
  let ?w1 = "w\<lparr>now := now w + 5500\<rparr>"
  have cfe: "check_full_entry (refresh_map w) corp subchash q = w"
    using st by (simp add: check_full_entry_def refresh_map_def)
  have st': "cache_status w (subchash, q) = Some st" and p': "cache_paths w (subchash, q) = Some p"
    using st p by (simp_all add: get_calc_status_def cache_file_path_def)
  have wt: "wait_for_conc c w q subchash minsize = (Inr True, ?w1)"
    using wait_for_conc_static_unfinished [OF static st' st(3) st(2) nostall m p' p(3)] .
  have chk: "check_result c ?w1 q subchash minsize
               = (Inr (\<not> truthy (has_some_result st minsize), False), ?w1)"
    using check_result_ok [of ?w1 subchash q st c minsize] st' st(2,3) nostall by simp
  have tp: "try_prefix c w corp subchash q minsize p = (Inr (Found (EmptyConc corp)), ?w1)"
    by (simp add: try_prefix_def wt chk)
  show ?thesis
    using q p by (simp add: find_cached_conc_base_def Let_def cfe candidates_full tp)
qed

theorem unfinished_entry_gives_empty_conc_witness:
  "find_cached_conc_base (ex_ctx None) (ex_world [''q[word=\"x\"]'', ''r250''] (ex_status False))
       ex_corp None [''q[word=\"x\"]'', ''r250''] 0
     = (Inr (2, EmptyConc ex_corp),
        (ex_world [''q[word=\"x\"]'', ''r250''] (ex_status False))\<lparr>now := 1000005500\<rparr>)
   \<and> \<not> finished (ex_status False)
   \<and> ''/var/cache/conc/a1b2.conc'' \<in> files (ex_world [''q[word=\"x\"]'', ''r250''] (ex_status False))"
  using unfinished_entry_gives_empty_conc [of "ex_ctx None" "[''q[word=\"x\"]'', ''r250'']"
      "ex_world [''q[word=\"x\"]'', ''r250''] (ex_status False)" None "ex_status False" ex_corp 0
      "''/var/cache/conc/a1b2.conc''"]
  by (simp add: contains_shuffle_seq_def get_calc_status_def cache_file_path_def ex_world_def
      ex_corp_def ex_ctx_def)

section \<open>The wait protocol\<close>

text \<open>
  C2: the claim is that a poll in which the stored status satisfies
  \<^verbatim>\<open>has_some_result(minsize)\<close> ends the wait even if the calculation is not finished. The
  code evaluated at such an entry: the status has 10 lines, \<open>minsize\<close> is 1, the
  calculation is unfinished and the cache file exists. The first poll already satisfies
  \<^verbatim>\<open>has_some_result(1)\<close>, yet the call returns only 5.5 s later, when the sleeps
  0.1 + 0.2 + ... + 1.0 have used up the budget of 5 s: the loop's condition tests
  \<^verbatim>\<open>finished\<close> alone.
\<close>

theorem wait_for_conc_ignores_partial_result:
  "truthy (has_some_result (ex_status False) 1)
   \<and> \<not> finished (ex_status False)
   \<and> wait_for_conc (ex_ctx None) (ex_world [''q[word=\"x\"]''] (ex_status False)) [''q[word=\"x\"]''] None 1
       = (Inr True, (ex_world [''q[word=\"x\"]''] (ex_status False))\<lparr>now := 1000005500\<rparr>)"
proof -
  have "wait_for_conc (ex_ctx None) (ex_world [''q[word=\"x\"]''] (ex_status False)) [''q[word=\"x\"]''] None 1
       = (Inr True, (ex_world [''q[word=\"x\"]''] (ex_status False))
            \<lparr>now := now (ex_world [''q[word=\"x\"]''] (ex_status False)) + 5500\<rparr>)"
    by (rule wait_for_conc_static_unfinished [where st = "ex_status False"
          and p = "''/var/cache/conc/a1b2.conc''"])
       (simp_all add: ex_ctx_def ex_world_def)
  then show ?thesis
    by (simp add: has_some_result_def ex_world_def)
qed

section \<open>Properties of the workers\<close>

lemma update_calc_status_error:
  "update_calc_status w sh q [Kw_error (EExn ex), Kw_finished True]
     = (Inr (), w\<lparr>cache_status := (cache_status w)((sh, q) \<mapsto>
          (stored_or_new w (sh, q))\<lparr>error := Some (str_exn ex), finished := True,
                                   last_upd := time_int (now w)\<rparr>)\<rparr>)"
  by (simp add: update_calc_status_def update_def hasattr_def field_names_def refused_names_def
      Let_def stored_or_new_def)

lemma update_calc_status_finished_error:
  "update_calc_status w sh q [Kw_finished True, Kw_error (EExn ex)]
     = (Inr (), w\<lparr>cache_status := (cache_status w)((sh, q) \<mapsto>
          (stored_or_new w (sh, q))\<lparr>finished := True, error := Some (str_exn ex),
                                   last_upd := time_int (now w)\<rparr>)\<rparr>)"
  by (simp add: update_calc_status_def update_def hasattr_def field_names_def refused_names_def
      Let_def stored_or_new_def)

lemma mark_loop_ok: "fst (mark_loop w sh q is err) = Inr ()"
  by (induction "is" arbitrary: w) (simp_all add: update_calc_status_error)

lemma mark_loop_keeps:
  "marked_failed w sh q i err \<Longrightarrow> marked_failed (snd (mark_loop w sh q is err)) sh q i err"
proof (induction "is" arbitrary: w)
  case Nil
  then show ?case by simp
next
  case (Cons j js)
  let ?w1 = "snd (update_calc_status w sh (take (j + 1) q) [Kw_error (EExn err), Kw_finished True])"
  have "marked_failed ?w1 sh q i err"
    using Cons.prems
    by (auto simp: update_calc_status_error marked_failed_def get_calc_status_def)
  then have "marked_failed (snd (mark_loop ?w1 sh q js err)) sh q i err"
    by (rule Cons.IH)
  then show ?case
    by (simp add: update_calc_status_error)
qed

lemma mark_loop_marks:
  "i \<in> set is \<Longrightarrow> marked_failed (snd (mark_loop w sh q is err)) sh q i err"
proof (induction "is" arbitrary: w)
  case Nil
  then show ?case by simp
next
  case (Cons j js)
  let ?w1 = "snd (update_calc_status w sh (take (j + 1) q) [Kw_error (EExn err), Kw_finished True])"
  have step: "snd (mark_loop w sh q (j # js) err) = snd (mark_loop ?w1 sh q js err)"
    by (simp add: update_calc_status_error)
  show ?case
  proof (cases "i = j")
    case True
    have "marked_failed ?w1 sh q i err"
      using True by (simp add: update_calc_status_error marked_failed_def get_calc_status_def)
    then show ?thesis
      unfolding step by (rule mark_loop_keeps)
  next
    case False
    with Cons.prems have "i \<in> set js" by simp
    then show ?thesis
      unfolding step by (rule Cons.IH)
  qed
qed

lemma mark_calc_states_err_result:
  "\<exists>w2. mark_calc_states_err w sh q from_idx err = (Inr (), w2)"
  using mark_loop_ok [of w sh q "[from_idx..<length q]" err]
  by (cases "mark_loop w sh q [from_idx..<length q] err") (simp add: mark_calc_states_err_def)

lemma mark_calc_states_err_marks:
  "mark_calc_states_err w sh q from_idx err = (r, w2) \<Longrightarrow> from_idx \<le> i \<Longrightarrow> i < length q \<Longrightarrow>
     marked_failed w2 sh q i err"
  using mark_loop_marks [of i "[from_idx..<length q]" w sh q err]
  by (simp add: mark_calc_states_err_def)

lemma sync_step_exec_fails:
  "q ! k \<noteq> [] \<Longrightarrow> s_exec se k = Some ex \<Longrightarrow> sync_step se w sh q k = (Inl ex, w)"
  by (simp add: sync_step_def split: list.splits)

lemma sync_steps_failed:
  "sync_steps se sh q acts w ent = (Inr (FailedAt k ex), w', entered) \<Longrightarrow>
     (\<forall>i. k \<le> i \<and> i < length q \<longrightarrow> marked_failed w' sh q i ex)
     \<and> (\<exists>pre post. acts = pre @ k # post \<and> entered = ent @ pre @ [k])"
proof (induction acts arbitrary: w ent)
  case Nil
  then show ?case by simp
next
  case (Cons act rest)
  show ?case
  proof (cases "sync_step se w sh q act")
    case (Pair res w1)
    show ?thesis
    proof (cases res)
      case (Inl e)
      obtain w2 where m: "mark_calc_states_err w1 sh q act e = (Inr (), w2)"
        using mark_calc_states_err_result by blast
      from Cons.prems Pair Inl m
      have eq: "k = act" "ex = e" "w' = w2" "entered = ent @ [act]"
        by auto
      have "\<exists>pre post. act # rest = pre @ k # post \<and> entered = ent @ pre @ [k]"
        using eq by (intro exI [of _ "[]"] exI [of _ rest]) simp
      then show ?thesis
        using eq mark_calc_states_err_marks [OF m] by simp
    next
      case (Inr u)
      with Cons.prems Pair
      have "sync_steps se sh q rest w1 (ent @ [act]) = (Inr (FailedAt k ex), w', entered)"
        by simp
      from Cons.IH [OF this]
      obtain pre post where marks: "\<forall>i. k \<le> i \<and> i < length q \<longrightarrow> marked_failed w' sh q i ex"
        and pp: "rest = pre @ k # post" "entered = (ent @ [act]) @ pre @ [k]"
        by blast
      have "act # rest = (act # pre) @ k # post \<and> entered = ent @ (act # pre) @ [k]"
        using pp by simp
      then show ?thesis using marks by blast
    qed
  qed
qed

lemma sync_steps_exec_raises:
  "sync_steps se sh q acts w ent = (r, w', entered) \<Longrightarrow> k \<in> set entered \<Longrightarrow> k \<notin> set ent \<Longrightarrow>
     q ! k \<noteq> [] \<Longrightarrow> s_exec se k = Some ex \<Longrightarrow> r = Inr (FailedAt k ex)"
proof (induction acts arbitrary: w ent)
  case Nil
  then show ?case by simp
next
  case (Cons act rest)
  show ?case
  proof (cases "act = k")
    case True
    obtain w2 where m: "mark_calc_states_err w sh q k ex = (Inr (), w2)"
      using mark_calc_states_err_result by blast
    show ?thesis
      using Cons.prems(1) True sync_step_exec_fails [OF Cons.prems(4,5), of w sh] m
      by simp
  next
    case False
    show ?thesis
    proof (cases "sync_step se w sh q act")
      case (Pair res w1)
      show ?thesis
      proof (cases res)
        case (Inl e)
        obtain w2 where m: "mark_calc_states_err w1 sh q act e = (Inr (), w2)"
          using mark_calc_states_err_result by blast
        from Cons.prems(1) Pair Inl m have "entered = ent @ [act]" by simp
        with Cons.prems(2,3) False show ?thesis by simp
      next
        case (Inr u)
        with Cons.prems(1) Pair
        have "sync_steps se sh q rest w1 (ent @ [act]) = (r, w', entered)" by simp
        moreover have "k \<notin> set (ent @ [act])" using Cons.prems(3) False by simp
        ultimately show ?thesis
          using Cons.IH Cons.prems(2,4,5) by blast
      qed
    qed
  qed
qed

lemma sync_steps_not_base:
  "sync_steps se sh q acts w ent = (r, w', entered) \<Longrightarrow> r \<noteq> Inr (FailedBase ex)"
proof (induction acts arbitrary: w ent)
  case Nil
  then show ?case by auto
next
  case (Cons act rest)
  show ?case
  proof (cases "sync_step se w sh q act")
    case (Pair res w1)
    show ?thesis
    proof (cases res)
      case (Inl e)
      obtain w2 where m: "mark_calc_states_err w1 sh q act e = (Inr (), w2)"
        using mark_calc_states_err_result by blast
      from Cons.prems Pair Inl m show ?thesis by auto
    next
      case (Inr u)
      with Cons.prems Pair
      have "sync_steps se sh q rest w1 (ent @ [act]) = (r, w', entered)" by simp
      then show ?thesis by (rule Cons.IH)
    qed
  qed
qed

text \<open>
  C7: in a call of the synchronous worker in which executing the operation of step \<open>k\<close>
  raises an exception (the step is entered, its operation is not empty and
  \<^verbatim>\<open>exec_command\<close> raises), the call ends as failed at \<open>k\<close> with that exception. Whenever
  a call ends as failed at a step \<open>k\<close>, every prefix \<^verbatim>\<open>q[:i+1]\<close> for \<open>i\<close> from \<open>k\<close> to
  \<^verbatim>\<open>len(q)-1\<close> has a status that is finished with the error set to the exception, and no
  step after \<open>k\<close> has been entered. When the first block of the worker fails (finding
  the cached base, or computing the base query), every prefix from the first is so
  marked and no step is entered.
\<close>

theorem sync_worker_marks_errors:
  assumes run: "ConcSyncCalculation_call se c w corp subchash q = (r, w', entered)"
  shows "(k \<in> set entered \<and> q ! k \<noteq> [] \<and> s_exec se k = Some ex \<longrightarrow> r = Inr (FailedAt k ex))
     \<and> (r = Inr (FailedAt k ex) \<longrightarrow>
          (\<forall>i. k \<le> i \<and> i < length q \<longrightarrow> marked_failed w' subchash q i ex)
          \<and> k \<in> set entered \<and> (\<forall>j\<in>set entered. j \<le> k))
     \<and> (r = Inr (FailedBase ex) \<longrightarrow>
          (\<forall>i. i < length q \<longrightarrow> marked_failed w' subchash q i ex) \<and> entered = [])"
proof (cases "sync_base se c w corp subchash q")
  case (Pair res w1)
  show ?thesis
  proof (cases res)
    case (Inl e)
    obtain w2 where m: "mark_calc_states_err w1 subchash q 0 e = (Inr (), w2)"
      using mark_calc_states_err_result by blast
    from run Pair Inl m
    have eq: "r = Inr (FailedBase e)" "w' = w2" "entered = []"
      by (simp_all add: ConcSyncCalculation_call_def)
    show ?thesis
      using eq mark_calc_states_err_marks [OF m] by auto
  next
    case (Inr calc_from)
    with run Pair
    have steps: "sync_steps se subchash q [calc_from..<length q] w1 [] = (r, w', entered)"
      by (simp add: ConcSyncCalculation_call_def)
    have a: "k \<in> set entered \<and> q ! k \<noteq> [] \<and> s_exec se k = Some ex \<longrightarrow> r = Inr (FailedAt k ex)"
      using sync_steps_exec_raises [OF steps] by simp
    have b: "r = Inr (FailedAt k ex) \<longrightarrow>
          (\<forall>i. k \<le> i \<and> i < length q \<longrightarrow> marked_failed w' subchash q i ex)
          \<and> k \<in> set entered \<and> (\<forall>j\<in>set entered. j \<le> k)"
    proof
      assume "r = Inr (FailedAt k ex)"
      with steps have "sync_steps se subchash q [calc_from..<length q] w1 [] = (Inr (FailedAt k ex), w', entered)"
        by simp
      from sync_steps_failed [OF this]
      obtain pre post where marks: "\<forall>i. k \<le> i \<and> i < length q \<longrightarrow> marked_failed w' subchash q i ex"
        and pp: "[calc_from..<length q] = pre @ k # post" "entered = [] @ pre @ [k]"
        by blast
      have "sorted (pre @ k # post)"
        using pp(1) [symmetric] by simp
      then have "\<forall>j\<in>set pre. j \<le> k"
        by (simp add: sorted_append)
      with marks pp(2) show "(\<forall>i. k \<le> i \<and> i < length q \<longrightarrow> marked_failed w' subchash q i ex)
          \<and> k \<in> set entered \<and> (\<forall>j\<in>set entered. j \<le> k)"
        by auto
    qed
    have c: "r \<noteq> Inr (FailedBase ex)"
      using sync_steps_not_base [OF steps] .
    show ?thesis using a b c by simp
  qed
qed

lemma ex_sync_base:
  "sync_base (ex_sync_engine ex_fail_at_1) (ex_ctx None) (ex_world [''q[word=\"x\"]''] (ex_status True))
       ex_corp None ex_query3
     = (Inr 1, ex_world [''q[word=\"x\"]''] (ex_status True))"
proof -
  let ?W = "ex_world [''q[word=\"x\"]''] (ex_status True)"
  have wt: "wait_for_conc (ex_ctx None) ?W [''q[word=\"x\"]''] None 0 = (Inr True, ?W)"
    by (rule wait_for_conc_finished [where st = "ex_status True" and p = "''/var/cache/conc/a1b2.conc''"])
       (simp_all add: ex_world_def)
  have chk: "check_result (ex_ctx None) ?W [''q[word=\"x\"]''] None 0
               = (Inr (\<not> truthy (has_some_result (ex_status True) 0), True), ?W)"
    using check_result_ok [of ?W None "[''q[word=\"x\"]'']" "ex_status True" "ex_ctx None" 0]
    by (simp add: ex_world_def)
  have tp: "try_prefix (ex_ctx None) ?W ex_corp None [''q[word=\"x\"]''] 0 ''/var/cache/conc/a1b2.conc''
              = (Inr (Found (PyConc ex_corp ''/var/cache/conc/a1b2.conc'' ex_corp)), ?W)"
    by (simp add: try_prefix_def wt chk) (simp add: ex_ctx_def)
  have paths: "cache_file_path ?W None [''q[word=\"x\"]'', ''f'', ''r250''] = None"
    "cache_file_path ?W None [''q[word=\"x\"]'', ''f''] = None"
    "cache_file_path ?W None [''q[word=\"x\"]''] = Some ''/var/cache/conc/a1b2.conc''"
    by (simp_all add: cache_file_path_def ex_world_def)
  have cfe: "check_full_entry (refresh_map ?W) ex_corp None ex_query3 = ?W"
    by (simp add: check_full_entry_def refresh_map_def get_calc_status_def ex_world_def ex_query3_def)
  have cands: "search_candidates ex_query3 = [3, 2, 1]"
    by (simp add: search_candidates_def range_down_def contains_shuffle_seq_def ex_query3_def upt_rec)
  have fcb: "find_cached_conc_base (ex_ctx None) ?W ex_corp None ex_query3 0
     = (Inr (1, PyConc ex_corp ''/var/cache/conc/a1b2.conc'' ex_corp), ?W)"
    by (simp add: find_cached_conc_base_def Let_def cfe cands)
       (simp add: ex_query3_def paths tp)
  show ?thesis
    by (simp add: sync_base_def fcb)
qed

lemma ex_sync_run:
  "fst (ConcSyncCalculation_call (ex_sync_engine ex_fail_at_1) (ex_ctx None)
     (ex_world [''q[word=\"x\"]''] (ex_status True)) ex_corp None ex_query3)
    = Inr (FailedAt 1 (OtherException ''engine failure''))
   \<and> snd (snd (ConcSyncCalculation_call (ex_sync_engine ex_fail_at_1) (ex_ctx None)
     (ex_world [''q[word=\"x\"]''] (ex_status True)) ex_corp None ex_query3)) = [1]"
proof -
  let ?W = "ex_world [''q[word=\"x\"]''] (ex_status True)"
  have st: "sync_step (ex_sync_engine ex_fail_at_1) ?W None ex_query3 (Suc 0)
               = (Inl (OtherException ''engine failure''), ?W)"
    by (rule sync_step_exec_fails) (simp_all add: ex_query3_def ex_sync_engine_def ex_fail_at_1_def)
  obtain w2 where m: "mark_calc_states_err ?W None ex_query3 (Suc 0) (OtherException ''engine failure'')
                        = (Inr (), w2)"
    using mark_calc_states_err_result by blast
  have up: "[1..<length ex_query3] = [Suc 0, 2]"
    by (simp add: ex_query3_def upt_rec)
  have "ConcSyncCalculation_call (ex_sync_engine ex_fail_at_1) (ex_ctx None) ?W ex_corp None ex_query3
          = (Inr (FailedAt (Suc 0) (OtherException ''engine failure'')), w2, [Suc 0])"
    by (simp only: ConcSyncCalculation_call_def ex_sync_base up sync_steps.simps st m
        prod.case sum.case append_Nil)
  then show ?thesis
    by simp
qed

theorem sync_worker_marks_errors_witness:
  "1 \<in> set (snd (snd (ConcSyncCalculation_call (ex_sync_engine ex_fail_at_1) (ex_ctx None)
              (ex_world [''q[word=\"x\"]''] (ex_status True)) ex_corp None ex_query3)))
   \<and> ex_query3 ! 1 \<noteq> []
   \<and> s_exec (ex_sync_engine ex_fail_at_1) 1 = Some (OtherException ''engine failure'')
   \<and> fst (ConcSyncCalculation_call (ex_sync_engine ex_fail_at_1) (ex_ctx None)
              (ex_world [''q[word=\"x\"]''] (ex_status True)) ex_corp None ex_query3)
       = Inr (FailedAt 1 (OtherException ''engine failure''))
   \<and> marked_failed (fst (snd (ConcSyncCalculation_call (ex_sync_engine ex_fail_at_1) (ex_ctx None)
              (ex_world [''q[word=\"x\"]''] (ex_status True)) ex_corp None ex_query3)))
        None ex_query3 1 (OtherException ''engine failure'')
   \<and> marked_failed (fst (snd (ConcSyncCalculation_call (ex_sync_engine ex_fail_at_1) (ex_ctx None)
              (ex_world [''q[word=\"x\"]''] (ex_status True)) ex_corp None ex_query3)))
        None ex_query3 2 (OtherException ''engine failure'')
   \<and> snd (snd (ConcSyncCalculation_call (ex_sync_engine ex_fail_at_1) (ex_ctx None)
              (ex_world [''q[word=\"x\"]''] (ex_status True)) ex_corp None ex_query3)) = [1]"
proof -
  let ?X = "ConcSyncCalculation_call (ex_sync_engine ex_fail_at_1) (ex_ctx None)
              (ex_world [''q[word=\"x\"]''] (ex_status True)) ex_corp None ex_query3"
  let ?E = "OtherException ''engine failure''"
  have run: "?X = (fst ?X, fst (snd ?X), snd (snd ?X))"
    by simp
  have ev: "fst ?X = Inr (FailedAt 1 ?E)" "snd (snd ?X) = [1]"
    using ex_sync_run by simp_all
  have pre: "1 \<in> set (snd (snd ?X))" "ex_query3 ! 1 \<noteq> []"
    "s_exec (ex_sync_engine ex_fail_at_1) 1 = Some ?E"
    using ev by (simp_all add: ex_query3_def ex_sync_engine_def ex_fail_at_1_def)
  have len: "length ex_query3 = 3"
    by (simp add: ex_query3_def)
  from sync_worker_marks_errors [OF run, of 1 ?E] ev
  have "\<forall>i. 1 \<le> i \<and> i < length ex_query3 \<longrightarrow> marked_failed (fst (snd ?X)) None ex_query3 i ?E"
    by blast
  then have marks: "marked_failed (fst (snd ?X)) None ex_query3 1 ?E"
    "marked_failed (fst (snd ?X)) None ex_query3 2 ?E"
    by (simp_all add: len)
  show ?thesis
    using pre ev marks by blast
qed

lemma files_update_calc_status [simp]:
  "files (snd (update_calc_status w sh q kw)) = files w"
  by (simp add: update_calc_status_def Let_def split: prod.splits option.splits)

lemma keeps_files_refl [simp]: "keeps_files cf w w"
  by (simp add: keeps_files_def)

lemma keeps_files_trans:
  "keeps_files cf w w1 \<Longrightarrow> keeps_files cf w1 w2 \<Longrightarrow> keeps_files cf w w2"
  by (auto simp: keeps_files_def)

lemma keeps_files_sleep:
  "\<forall>t w. files w \<subseteq> files (interference c t w) \<Longrightarrow> keeps_files cf w (sleep c ms w)"
proof -
  assume env: "\<forall>t w. files w \<subseteq> files (interference c t w)"
  have "files (w\<lparr>now := now w + ms\<rparr>) \<subseteq> files (interference c (now w + ms) (w\<lparr>now := now w + ms\<rparr>))"
    using env by blast
  then show ?thesis
    by (auto simp: keeps_files_def sleep_def)
qed

lemma keeps_files_save_and_rename:
  "keeps_files cf w (snd (save_and_rename e w cf k))"
  by (auto simp: keeps_files_def save_and_rename_def os_rename_def Let_def split: option.splits)

lemma keeps_files_calc_iteration:
  assumes env: "\<forall>t w. files w \<subseteq> files (interference c t w)"
  shows "keeps_files cf w (snd (calc_iteration e c cf sh q tid k w))"
proof (cases "save_and_rename e w cf (Suc k)")
  case (Pair r w1)
  have a: "keeps_files cf w w1"
    using keeps_files_save_and_rename [of cf w e "Suc k"] Pair by simp
  show ?thesis
  proof (cases r)
    case (Inl ex)
    with Pair a show ?thesis by (simp add: calc_iteration_def)
  next
    case (Inr u)
    have b: "keeps_files cf w1 (sleep c (100 * (int k + 1)) w1)"
      using env by (rule keeps_files_sleep)
    have c: "keeps_files cf w (sleep c (100 * (int k + 1)) w1)"
      using a b by (rule keeps_files_trans)
    show ?thesis
      using Pair Inr c
      by (auto simp: calc_iteration_def Let_def keeps_files_def split: sum.splits)
  qed
qed

lemma keeps_files_calc_loop_aux:
  assumes "calc_loop e c cf sh q tid k w = Some y"
  shows "(\<forall>t w. files w \<subseteq> files (interference c t w)) \<longrightarrow> keeps_files cf w (snd y)"
proof (rule calc_loop.raw_induct [where P = "\<lambda>e c cf sh q tid k w y.
           (\<forall>t w. files w \<subseteq> files (interference c t w)) \<longrightarrow> keeps_files cf w (snd y)",
         OF _ assms], goal_cases)
  case (1 calc_loop' e c cf sh q tid k w y)
  note IH = 1(1) and body = 1(2)
  show ?case
  proof
    assume env: "\<forall>t w. files w \<subseteq> files (interference c t w)"
    show "keeps_files cf w (snd y)"
    proof (cases "e_finished e k")
      case (Inl ex)
      with body show ?thesis by (auto simp: keeps_files_def)
    next
      case (Inr fin)
      note fin_eq = this
      show ?thesis
      proof (cases fin)
        case True
        with fin_eq body show ?thesis by (auto simp: keeps_files_def)
      next
        case False
        show ?thesis
        proof (cases "calc_iteration e c cf sh q tid k w")
          case (Pair r w1)
          have a: "keeps_files cf w w1"
            using keeps_files_calc_iteration [OF env, of cf w e sh q tid k] Pair by simp
          show ?thesis
          proof (cases r)
            case (Inl ex)
            with fin_eq False Pair body a show ?thesis by auto
          next
            case (Inr u)
            note r_eq = this
            have rec: "calc_loop' e c cf sh q tid (Suc k) w1 = Some y"
              using fin_eq False Pair body r_eq by simp
            have b: "keeps_files cf w1 (snd y)"
              using IH [OF rec] env by blast
            show ?thesis
              using a b by (rule keeps_files_trans)
          qed
        qed
      qed
    qed
  qed
qed

lemma keeps_files_calc_loop:
  assumes "calc_loop e c cf sh q tid k w = Some y"
    and "\<forall>t w. files w \<subseteq> files (interference c t w)"
  shows "keeps_files cf w (snd y)"
  using keeps_files_calc_loop_aux [OF assms(1)] assms(2) by blast

lemma files_add_to_map [simp]: "files (snd (add_to_map c w sh q n cs)) = files w"
  by (simp add: add_to_map_def Let_def)

lemma keeps_files_calc_finish:
  "keeps_files cf w (snd (calc_finish e c cf sh q tid k w))"
proof (cases "save_and_rename e w cf (Suc k)")
  case (Pair r w1)
  have a: "keeps_files cf w w1"
    using keeps_files_save_and_rename [of cf w e "Suc k"] Pair by simp
  have "files (snd (calc_finish e c cf sh q tid k w)) = files w1"
    using Pair
    by (auto simp: calc_finish_def split: sum.splits prod.splits if_splits
        dest: arg_cong [where f = "\<lambda>x. files (snd x)"])
  with a show ?thesis by (simp add: keeps_files_def)
qed

lemma keeps_files_calc_body:
  assumes "calc_body e c w args sh q tid = Some y"
    and env: "\<forall>t w. files w \<subseteq> files (interference c t w)"
  shows "keeps_files (cachefile args) w (snd y)"
proof (cases "already_running args")
  case True
  with assms(1) show ?thesis by (auto simp: calc_body_def)
next
  case False
  note nr = this
  show ?thesis
  proof (cases "e_compute_conc e")
    case (Some ex)
    with nr assms(1) show ?thesis by (auto simp: calc_body_def)
  next
    case None
    let ?w1 = "sleep c 100 w"
    have a: "keeps_files (cachefile args) w ?w1"
      using env by (rule keeps_files_sleep)
    show ?thesis
    proof (cases "e_save e 0")
      case (Some ex)
      with nr None assms(1) a show ?thesis by (auto simp: calc_body_def Let_def)
    next
      case None': None
      let ?w2 = "?w1\<lparr>files := insert (cachefile args) (files ?w1)\<rparr>"
      have b: "keeps_files (cachefile args) w ?w2"
        using a by (auto simp: keeps_files_def)
      show ?thesis
      proof (cases "calc_loop e c (cachefile args) sh q tid 0 ?w2")
        case None
        with nr \<open>e_compute_conc e = None\<close> None' assms(1) show ?thesis
          by (simp add: calc_body_def Let_def)
      next
        case (Some z)
        have c: "keeps_files (cachefile args) ?w2 (snd z)"
          using keeps_files_calc_loop [OF Some env] .
        show ?thesis
        proof (cases z)
          case (Pair r w3)
          show ?thesis
          proof (cases r)
            case (Inl ex)
            with nr \<open>e_compute_conc e = None\<close> None' Some Pair assms(1) have "y = (Inl ex, w3)"
              by (simp add: calc_body_def Let_def)
            with b c Pair show ?thesis
              by (auto intro: keeps_files_trans)
          next
            case (Inr k)
            with nr \<open>e_compute_conc e = None\<close> None' Some Pair assms(1)
            have "y = calc_finish e c (cachefile args) sh q tid k w3"
              by (simp add: calc_body_def Let_def)
            then have "keeps_files (cachefile args) w3 (snd y)"
              using keeps_files_calc_finish by simp
            with b c Pair show ?thesis
              by (auto intro: keeps_files_trans)
          qed
        qed
      qed
    qed
  qed
qed

text \<open>
  C6, as stated: whenever an exception is raised during the computation, the status of
  (subchash, query) is updated with \<^verbatim>\<open>finished=True\<close> and the error. When opening the
  corpus raises, the handler finds \<^verbatim>\<open>cache_map\<close> still \<^verbatim>\<open>None\<close>: the call returns
  normally and the status stays as it was, unfinished and without an error.
\<close>

theorem worker_failure_counterexample:
  "e_get_corpus (ex_engine (Inl (OtherException ''corpus not found'')) ex_fin_raises)
     = Inl (OtherException ''corpus not found'')
   \<and> ConcCalculation_call (ex_engine (Inl (OtherException ''corpus not found'')) ex_fin_raises)
        (ex_ctx None) (ex_world [''q[word=\"x\"]''] (ex_status False)) ex_args None
        [''q[word=\"x\"]''] (Some ''task-1'')
       = Some (Inr (), ex_world [''q[word=\"x\"]''] (ex_status False))
   \<and> get_calc_status (ex_world [''q[word=\"x\"]''] (ex_status False)) None [''q[word=\"x\"]'']
       = Some (ex_status False)
   \<and> \<not> finished (ex_status False) \<and> error (ex_status False) = None"
  by (simp add: ConcCalculation_call_def ex_engine_def get_calc_status_def ex_world_def)

text \<open>
  C6, amended: in every call of the asynchronous worker in which an exception is raised
  after the cache map has been obtained, the call returns normally, the status of
  (subchash, query) is afterwards finished with its error set to the text of the
  exception, and the handler leaves the files as they were when the exception was
  raised; over the whole call no file that existed before it is missing afterwards,
  except the temporary file that is renamed over the cache file (provided that no
  other process deletes files meanwhile). When the exception is raised before the cache
  map has been obtained, the call returns normally as well and updates no status.
\<close>

theorem worker_failure_recorded:
  assumes cm: "e_get_corpus e = Inr corpus_obj" "e_get_mapping e = None"
    and raised: "calc_body e c w args subchash q tid = Some (Inl ex, w1)"
    and env: "\<forall>t w. files w \<subseteq> files (interference c t w)"
  shows "\<exists>w'. ConcCalculation_call e c w args subchash q tid = Some (Inr (), w')
           \<and> (\<exists>st. get_calc_status w' subchash q = Some st \<and> finished st
                  \<and> error st = Some (str_exn ex))
           \<and> files w' = files w1
           \<and> (\<forall>p\<in>files w. p \<noteq> cachefile args @ ''.tmp'' \<longrightarrow> p \<in> files w')"
proof -
  let ?w' = "w1\<lparr>cache_status := (cache_status w1)((subchash, q) \<mapsto>
          (stored_or_new w1 (subchash, q))\<lparr>finished := True, error := Some (str_exn ex),
                                   last_upd := time_int (now w1)\<rparr>)\<rparr>"
  have call: "ConcCalculation_call e c w args subchash q tid = Some (Inr (), ?w')"
    using cm raised by (simp add: ConcCalculation_call_def update_calc_status_finished_error)
  have st: "\<exists>st. get_calc_status ?w' subchash q = Some st \<and> finished st
                  \<and> error st = Some (str_exn ex)"
    by (simp add: get_calc_status_def)
  have "keeps_files (cachefile args) w w1"
    using keeps_files_calc_body [OF raised env] by simp
  then have kept: "\<forall>p\<in>files w. p \<noteq> cachefile args @ ''.tmp'' \<longrightarrow> p \<in> files ?w'"
    by (simp add: keeps_files_def)
  show ?thesis
    using call st kept by (intro exI [of _ ?w']) simp
qed

lemma ex_calc_body:
  "\<exists>w1. calc_body (ex_engine (Inr ex_corp) ex_fin_raises) (ex_ctx None)
          (ex_world [''q[word=\"x\"]''] (ex_status False)) ex_args None [''q[word=\"x\"]'']
          (Some ''task-1'')
        = Some (Inl (OtherException ''engine failure''), w1)"
  by (simp add: calc_body_def Let_def ex_engine_def ex_args_def ex_fin_raises_def
      calc_loop.simps [of _ _ _ _ _ _ 0] calc_loop.simps [of _ _ _ _ _ _ "Suc 0"]
      calc_iteration_def save_and_rename_def os_rename_def
      sizes_kwargs_def update_calc_status_def update_def hasattr_def field_names_def
      refused_names_def)

theorem worker_failure_recorded_witness:
  "e_finished (ex_engine (Inr ex_corp) ex_fin_raises) 1 = Inl (OtherException ''engine failure'')
   \<and> (\<exists>w'. ConcCalculation_call (ex_engine (Inr ex_corp) ex_fin_raises) (ex_ctx None)
          (ex_world [''q[word=\"x\"]''] (ex_status False)) ex_args None [''q[word=\"x\"]'']
          (Some ''task-1'') = Some (Inr (), w')
        \<and> (\<exists>st. get_calc_status w' None [''q[word=\"x\"]''] = Some st \<and> finished st
                \<and> error st = Some ''engine failure'')
        \<and> ''/var/cache/conc/a1b2.conc'' \<in> files w')"
proof -
  let ?e = "ex_engine (Inr ex_corp) ex_fin_raises"
  let ?W = "ex_world [''q[word=\"x\"]''] (ex_status False)"
  obtain w1 where cb: "calc_body ?e (ex_ctx None) ?W ex_args None [''q[word=\"x\"]''] (Some ''task-1'')
        = Some (Inl (OtherException ''engine failure''), w1)"
    using ex_calc_body by blast
  have cm: "e_get_corpus ?e = Inr ex_corp" "e_get_mapping ?e = None"
    by (simp_all add: ex_engine_def)
  have env: "\<forall>t w. files w \<subseteq> files (interference (ex_ctx None) t w)"
    by (simp add: ex_ctx_def)
  have fin: "e_finished ?e 1 = Inl (OtherException ''engine failure'')"
    by (simp add: ex_engine_def ex_fin_raises_def)
  have cf: "''/var/cache/conc/a1b2.conc'' \<in> files ?W"
    "''/var/cache/conc/a1b2.conc'' \<noteq> cachefile ex_args @ ''.tmp''"
    by (simp_all add: ex_world_def ex_args_def)
  from worker_failure_recorded [OF cm cb env] cf fin
  show ?thesis
    by fastforce
qed

end
